theory Spec2Isabelle
  imports Main "HOL-Library.AList"
begin

section \<open>The metadata editor of \<open>packages/metadata-common/src/MetadataEditor.tsx\<close>\<close>

text \<open>
  The class \<open>MetadataEditor\<close> is embedded as a record of its fields together with the
  pieces of its environment that its methods read or write (the objects reachable from
  \<open>allMetadata\<close>, the title's class name, the host's dirty status, the calls made to the
  metadata service). Every method is a function from the state to an outcome and the
  state in which the method stopped; a JavaScript exception is the outcome \<open>Throw\<close>, and
  the state beside it holds the writes made before the exception.
\<close>

subsection \<open>JavaScript values\<close>

text \<open>
  Field values and schema defaults have the TypeScript type \<open>any\<close>; they reach the editor
  as parsed JSON or from input elements. A value is \<open>undefined\<close>, \<open>null\<close>, a boolean, a
  number (whole numbers only; JSON has no NaN), a string, an array or an object.
  Strings are byte strings, so the model of \<open>toLowerCase\<close> and of iterating a string is
  that of ASCII text.
\<close>

datatype jsval =
    Undefined
  | Null
  | Bool bool
  | Num int
  | Str string
  | Arr "jsval list"
  | Obj "(string \<times> jsval) list"

datatype js_error = TypeError

datatype 'a outcome = Return 'a | Throw js_error

text \<open>JavaScript truthiness, as used by \<open>!v\<close>, \<open>a || b\<close>, \<open>a && b\<close> and \<open>if (v)\<close>.\<close>

fun truthy :: "jsval \<Rightarrow> bool" where
  "truthy Undefined = False"
| "truthy Null = False"
| "truthy (Bool b) = b"
| "truthy (Num n) = (n \<noteq> 0)"
| "truthy (Str s) = (s \<noteq> [])"
| "truthy (Arr xs) = True"
| "truthy (Obj kvs) = True"

text \<open>\<open>a || b\<close>: the left operand when it is truthy, the right one otherwise.\<close>

definition js_or :: "jsval \<Rightarrow> jsval \<Rightarrow> jsval" where
  "js_or a b = (if truthy a then a else b)"

text \<open>
  \<open>a ?? b\<close>, the operator the specification names for the validated value: the right
  operand exactly when the left one is \<open>undefined\<close> or \<open>null\<close>. It occurs in the source
  only in the getter \<open>darkMode\<close>; it is defined here to state the specification's reading
  of the validated value beside the source's.
\<close>

definition nullish_coalesce :: "jsval \<Rightarrow> jsval \<Rightarrow> jsval" where
  "nullish_coalesce a b = (if a = Undefined \<or> a = Null then b else a)"

fun isArray :: "jsval \<Rightarrow> bool" where
  "isArray (Arr xs) = True"
| "isArray v = False"

text \<open>\<open>v.length\<close> and \<open>v[0]\<close>, used by the source only on values that passed \<open>Array.isArray\<close>.\<close>

fun array_length :: "jsval \<Rightarrow> nat" where
  "array_length (Arr xs) = length xs"
| "array_length v = 0"

fun array_first :: "jsval \<Rightarrow> jsval" where
  "array_first (Arr (x # xs)) = x"
| "array_first v = Undefined"

text \<open>
  \<open>Array.prototype.includes\<close> compares with SameValueZero: primitives by value, arrays
  and objects by identity. The arrays and objects inside parsed JSON are pairwise
  different objects, so a value of that kind is never found.
\<close>

fun is_primitive :: "jsval \<Rightarrow> bool" where
  "is_primitive (Arr xs) = False"
| "is_primitive (Obj kvs) = False"
| "is_primitive v = True"

definition js_includes :: "jsval list \<Rightarrow> jsval \<Rightarrow> bool" where
  "js_includes xs v = (is_primitive v \<and> v \<in> set xs)"

text \<open>
  \<open>for (const x of v)\<close>: an array yields its elements, a string its characters, every
  other value is not iterable.
\<close>

fun js_iterate :: "jsval \<Rightarrow> jsval list outcome" where
  "js_iterate (Arr xs) = Return xs"
| "js_iterate (Str s) = Return (map (\<lambda>c. Str [c]) s)"
| "js_iterate v = Throw TypeError"

subsection \<open>Strings\<close>

definition lower_char :: "char \<Rightarrow> char" where
  "lower_char c =
     (case map_of (zip ''ABCDEFGHIJKLMNOPQRSTUVWXYZ'' ''abcdefghijklmnopqrstuvwxyz'') c of
        Some d \<Rightarrow> d
      | None \<Rightarrow> c)"

text \<open>\<open>v.toLowerCase()\<close>: only a string has the method.\<close>

fun toLowerCase :: "jsval \<Rightarrow> string outcome" where
  "toLowerCase (Str s) = Return (map lower_char s)"
| "toLowerCase v = Throw TypeError"

fun starts_with :: "string \<Rightarrow> string \<Rightarrow> bool" where
  "starts_with s [] = True"
| "starts_with [] (p # ps) = False"
| "starts_with (c # cs) (p # ps) = (c = p \<and> starts_with cs ps)"

text \<open>\<open>s.includes(pat)\<close>: \<open>pat\<close> occurs in \<open>s\<close>.\<close>

fun str_includes :: "string \<Rightarrow> string \<Rightarrow> bool" where
  "str_includes [] pat = (pat = [])"
| "str_includes (c # cs) pat = (starts_with (c # cs) pat \<or> str_includes cs pat)"

text \<open>\<open>s.replace(pat, '')\<close> with a string pattern: the first occurrence is removed.\<close>

fun str_remove_first :: "string \<Rightarrow> string \<Rightarrow> string" where
  "str_remove_first [] pat = []"
| "str_remove_first (c # cs) pat =
     (if starts_with (c # cs) pat then drop (length pat) (c # cs)
      else c # str_remove_first cs pat)"

definition DIRTY_CLASS :: string where
  "DIRTY_CLASS = ''jp-mod-dirty''"

subsection \<open>The emptiness predicate\<close>

definition isValueEmpty :: "jsval \<Rightarrow> bool" where
  "isValueEmpty schemaValue \<longleftrightarrow>
     schemaValue = Undefined \<or>
     schemaValue = Null \<or>
     schemaValue = Str [] \<or>
     (isArray schemaValue \<and> array_length schemaValue = 0) \<or>
     (isArray schemaValue \<and> array_length schemaValue = 1 \<and> array_first schemaValue = Str []) \<or>
     schemaValue = Str ''(No selection)''"

subsection \<open>Schema, records and the objects they live in\<close>

text \<open>
  A field definition of the schema, with the parts the editor's logic reads: \<open>default\<close>,
  \<open>enum\<close> and \<open>uihints\<close> (its \<open>field_type\<close>, \<open>default_choices\<close> and the transient \<open>error\<close>
  flag). An absent property is \<open>None\<close> (\<open>Undefined\<close> for \<open>default\<close>). The properties that are
  only handed on to the input controls (\<open>title\<close>, \<open>description\<close>, \<open>secure\<close>, \<open>placeholder\<close>)
  and the grouping by \<open>category\<close> are left out.
\<close>

record uihints =
  field_type :: "string option"
  default_choices :: "jsval list option"
  error :: "bool option"

definition empty_uihints :: uihints where
  "empty_uihints = \<lparr>field_type = None, default_choices = None, error = None\<rparr>"

record field_def =
  fd_default :: jsval
  fd_enum :: "jsval list option"
  fd_uihints :: "uihints option"

text \<open>
  What \<open>MetadataService.getSchema\<close> answers with: per schema its \<open>name\<close>, \<open>title\<close>,
  \<open>properties.metadata.properties\<close> (in the order \<open>for ... in\<close> enumerates it) and
  \<open>properties.metadata.required\<close>, which a schema may lack.
\<close>

record schema_doc =
  sd_name :: string
  sd_title :: string
  sd_properties :: "(string \<times> field_def) list"
  sd_required :: "string list option"

text \<open>What \<open>MetadataService.getMetadata\<close> answers with, per record.\<close>

record metadata_json =
  mj_name :: string
  mj_display_name :: jsval
  mj_metadata :: "(string \<times> jsval) list"

text \<open>
  Objects have identity. The dictionaries of field values live in a heap of references;
  an element of \<open>allMetadata\<close> is the object \<open>{name, display_name, metadata}\<close>, with its own
  identity \<open>obj_ref\<close> and the reference \<open>obj_metadata\<close> to its dictionary. The editor's
  \<open>this.metadata\<close> is a reference too, and after initialisation it may be the very
  dictionary of an element of \<open>allMetadata\<close>.
\<close>

type_synonym ref = nat

type_synonym dict = "string \<rightharpoonup> jsval"

record metadata_obj =
  obj_ref :: ref
  obj_name :: string
  obj_display_name :: jsval
  obj_metadata :: ref

text \<open>\<open>d[k]\<close>: a missing key reads as \<open>undefined\<close>.\<close>

definition dict_get :: "dict \<Rightarrow> string \<Rightarrow> jsval" where
  "dict_get d k = (case d k of None \<Rightarrow> Undefined | Some v \<Rightarrow> v)"

text \<open>
  The host's \<open>ILabStatus\<close>: \<open>setDirty()\<close> hands out a disposable handle, and the
  application counts as dirty while a handle is live.
\<close>

record lab_status =
  issued :: nat
  live :: "nat list"

definition setDirty :: "lab_status \<Rightarrow> nat \<times> lab_status" where
  "setDirty st = (issued st, st\<lparr>issued := Suc (issued st), live := issued st # live st\<rparr>)"

definition dispose :: "nat \<Rightarrow> lab_status \<Rightarrow> lab_status" where
  "dispose h st = st\<lparr>live := removeAll h (live st)\<rparr>"

record code_editor =
  mimeType :: string

text \<open>
  The object handed to \<open>JSON.stringify\<close> on save, and the two calls of the remote service
  with their arguments (namespace, name, payload).
\<close>

record payload =
  schema_name :: string
  display_name :: jsval
  payload_metadata :: dict

datatype service_call =
    PostMetadata string payload
  | PutMetadata string string payload

subsection \<open>The editor's state\<close>

text \<open>
  The fields of the class as the source declares them, then the environment. \<open>name\<close> and
  \<open>code\<close> are optional properties; \<open>dirty\<close>, \<open>displayName\<close>, \<open>requiredFields\<close> and \<open>editor\<close>
  are not assigned by the constructor and so start out \<open>undefined\<close>; \<open>editorServices\<close> may
  be \<open>null\<close> and is represented by its \<open>getMimeTypeByLanguage\<close>, applied to the language.
  \<open>updateRequests\<close> counts the calls of \<open>this.update()\<close>, \<open>serviceCalls\<close> lists the calls of
  \<open>postMetadata\<close> and \<open>putMetadata\<close>, \<open>serverErrors\<close> counts the calls of
  \<open>RequestErrors.serverError\<close>, and \<open>codeNodePresent\<close> says whether the document has the
  element \<open>code:id\<close>.
\<close>

record metadata_editor =
  schemaName :: string
  namespace :: string
  name :: "string option"
  code :: "string list option"
  displayName :: jsval
  dirty :: "bool option"
  allTags :: "jsval list"
  clearDirty :: "nat option"
  requiredFields :: "string list option"
  invalidForm :: bool
  schema :: "(string \<times> field_def) list"
  schemaDisplayName :: "string option"
  allMetadata :: "metadata_obj list"
  metadata :: ref
  editorServices :: "(jsval \<Rightarrow> string) option"
  editor :: "code_editor option"
  status :: lab_status
  heap :: "ref \<Rightarrow> dict"
  next_ref :: ref
  titleClassName :: string
  codeNodePresent :: bool
  updateRequests :: nat
  serviceCalls :: "service_call list"
  serverErrors :: nat

record props =
  props_schema :: string
  props_namespace :: string
  props_name :: "string option"
  props_code :: "string list option"
  props_editorServices :: "(jsval \<Rightarrow> string) option"
  props_status :: lab_status

text \<open>
  The constructor, up to its call of \<open>initializeMetadata\<close>. The fresh dictionary \<open>{}\<close> of
  \<open>this.metadata\<close> is the object at reference 0.
\<close>

definition newMetadataEditor :: "props \<Rightarrow> metadata_editor" where
  "newMetadataEditor p =
     \<lparr>schemaName = props_schema p,
      namespace = props_namespace p,
      name = props_name p,
      code = props_code p,
      displayName = Undefined,
      dirty = None,
      allTags = [],
      clearDirty = None,
      requiredFields = None,
      invalidForm = False,
      schema = [],
      schemaDisplayName = None,
      allMetadata = [],
      metadata = 0,
      editorServices = props_editorServices p,
      editor = None,
      status = props_status p,
      heap = (\<lambda>r. Map.empty),
      next_ref = 1,
      titleClassName = [],
      codeNodePresent = False,
      updateRequests = 0,
      serviceCalls = [],
      serverErrors = 0\<rparr>"

text \<open>\<open>this.name\<close> as a condition: a name that is present and not the empty string.\<close>

fun has_name :: "string option \<Rightarrow> bool" where
  "has_name None = False"
| "has_name (Some n) = (n \<noteq> [])"

definition update :: "metadata_editor \<Rightarrow> metadata_editor" where
  "update e = e\<lparr>updateRequests := Suc (updateRequests e)\<rparr>"

text \<open>\<open>this.metadata[k]\<close>, \<open>this.metadata[k] = v\<close> and \<open>delete this.metadata[k]\<close>.\<close>

definition metadata_get :: "metadata_editor \<Rightarrow> string \<Rightarrow> jsval" where
  "metadata_get e k = dict_get (heap e (metadata e)) k"

definition metadata_set :: "string \<Rightarrow> jsval \<Rightarrow> metadata_editor \<Rightarrow> metadata_editor" where
  "metadata_set k v e = e\<lparr>heap := (heap e)(metadata e := (heap e (metadata e))(k \<mapsto> v))\<rparr>"

definition metadata_delete :: "string \<Rightarrow> metadata_editor \<Rightarrow> metadata_editor" where
  "metadata_delete k e = e\<lparr>heap := (heap e)(metadata e := (heap e (metadata e))(k := None))\<rparr>"

subsection \<open>Dirty state\<close>

definition handleDirtyState :: "bool \<Rightarrow> metadata_editor \<Rightarrow> metadata_editor" where
  "handleDirtyState d e =
     (let e1 = e\<lparr>dirty := Some d\<rparr>;
          e2 = (case clearDirty e1 of
                  None \<Rightarrow>
                    if d then (case setDirty (status e1) of
                                 (h, st) \<Rightarrow> e1\<lparr>clearDirty := Some h, status := st\<rparr>)
                    else e1
                | Some h \<Rightarrow>
                    if \<not> d then e1\<lparr>status := dispose h (status e1), clearDirty := None\<rparr>
                    else e1)
      in if d \<and> \<not> str_includes (titleClassName e2) DIRTY_CLASS
         then e2\<lparr>titleClassName := titleClassName e2 @ DIRTY_CLASS\<rparr>
         else if \<not> d
         then e2\<lparr>titleClassName := str_remove_first (titleClassName e2) DIRTY_CLASS\<rparr>
         else e2)"

subsection \<open>Validation\<close>

text \<open>
  The body of the loop \<open>for (const schemaField in this.schema)\<close>, over the keys of the
  schema. Reading \<open>includes\<close> of an undefined \<open>requiredFields\<close> and writing \<open>error\<close> into an
  undefined \<open>uihints\<close> throw a TypeError; on the error branch \<open>invalidForm\<close> is already set
  when the write throws.
\<close>

fun validateFields :: "string list \<Rightarrow> metadata_editor \<Rightarrow> unit outcome \<times> metadata_editor" where
  "validateFields [] e = (Return (), e)"
| "validateFields (schemaField # rest) e =
     (case map_of (schema e) schemaField of
        None \<Rightarrow> (Throw TypeError, e)
      | Some d \<Rightarrow>
          (let v = js_or (metadata_get e schemaField) (fd_default d) in
           case requiredFields e of
             None \<Rightarrow> (Throw TypeError, e)
           | Some rf \<Rightarrow>
               if schemaField \<in> set rf \<and> isValueEmpty v then
                 (let e1 = e\<lparr>invalidForm := True\<rparr> in
                  case fd_uihints d of
                    None \<Rightarrow> (Throw TypeError, e1)
                  | Some u \<Rightarrow>
                      validateFields rest
                        (e1\<lparr>schema := AList.update schemaField
                               (d\<lparr>fd_uihints := Some (u\<lparr>error := Some True\<rparr>)\<rparr>) (schema e1)\<rparr>))
               else
                 (case fd_uihints d of
                    None \<Rightarrow> (Throw TypeError, e)
                  | Some u \<Rightarrow>
                      validateFields rest
                        (e\<lparr>schema := AList.update schemaField
                              (d\<lparr>fd_uihints := Some (u\<lparr>error := Some False\<rparr>)\<rparr>) (schema e)\<rparr>))))"

definition hasInvalidFields :: "metadata_editor \<Rightarrow> bool outcome \<times> metadata_editor" where
  "hasInvalidFields e =
     (let e1 = e\<lparr>invalidForm := False\<rparr>;
          e2 = (if displayName e1 = Null \<or> displayName e1 = Str [] then e1\<lparr>invalidForm := True\<rparr>
                else e1)
      in case validateFields (map fst (schema e2)) e2 of
           (Throw x, e3) \<Rightarrow> (Throw x, e3)
         | (Return u, e3) \<Rightarrow> (Return (invalidForm e3), e3))"

subsection \<open>Saving\<close>

text \<open>
  The synchronous part of \<open>saveMetadata\<close>: the payload object is built first (it holds
  the display name and a reference to the dictionary), validation runs, and the payload
  is serialised when the service is called. What follows the service's answer (the
  \<open>then\<close> and \<open>catch\<close> callbacks) is not part of this function.
\<close>

definition saveMetadata :: "metadata_editor \<Rightarrow> unit outcome \<times> metadata_editor" where
  "saveMetadata e =
     (case hasInvalidFields e of
        (Throw x, e1) \<Rightarrow> (Throw x, e1)
      | (Return invalid, e1) \<Rightarrow>
          if invalid then (Return (), update e1)
          else
            (let newMetadata =
                   \<lparr>schema_name = schemaName e, display_name = displayName e,
                    payload_metadata = heap e1 (metadata e)\<rparr>
             in case name e1 of
                  None \<Rightarrow>
                    (Return (),
                     e1\<lparr>serviceCalls := serviceCalls e1 @ [PostMetadata (namespace e1) newMetadata]\<rparr>)
                | Some n \<Rightarrow>
                    if n = [] then
                      (Return (),
                       e1\<lparr>serviceCalls := serviceCalls e1 @ [PostMetadata (namespace e1) newMetadata]\<rparr>)
                    else
                      (Return (),
                       e1\<lparr>serviceCalls :=
                            serviceCalls e1 @ [PutMetadata (namespace e1) n newMetadata]\<rparr>)))"

subsection \<open>Edits\<close>

text \<open>
  \<open>handleTextInputChange(event, schemaField)\<close>; the argument \<open>v\<close> is
  \<open>event.nativeEvent.target.value\<close>. The condition \<open>!v && !this.requiredFields.includes(..)\<close>
  reads \<open>requiredFields\<close> only when \<open>v\<close> is falsy.
\<close>

definition handleTextInputChange ::
  "jsval \<Rightarrow> string \<Rightarrow> metadata_editor \<Rightarrow> unit outcome \<times> metadata_editor" where
  "handleTextInputChange v schemaField e =
     (let e1 = handleDirtyState True e in
      if schemaField = ''display_name'' then (Return (), e1\<lparr>displayName := v\<rparr>)
      else
        (case (if \<not> truthy v
               then (case requiredFields e1 of
                       None \<Rightarrow> Throw TypeError
                     | Some rf \<Rightarrow> Return (schemaField \<notin> set rf))
               else Return False) of
           Throw x \<Rightarrow> (Throw x, e1)
         | Return del \<Rightarrow>
             if del then (Return (), metadata_delete schemaField e1)
             else (Return (), metadata_set schemaField v e1)))"

text \<open>
  \<open>handleDropdownChange(schemaField, value)\<close>. For the field \<open>language\<close> the mime type of
  the code editor is set, which throws when \<open>editorServices\<close> is \<open>null\<close> or no code editor
  exists; the value is stored before that.
\<close>

definition handleDropdownChange ::
  "string \<Rightarrow> jsval \<Rightarrow> metadata_editor \<Rightarrow> unit outcome \<times> metadata_editor" where
  "handleDropdownChange schemaField v e =
     (let e1 = handleDirtyState True e;
          e2 = metadata_set schemaField v e1
      in if schemaField = ''language'' then
           (case editorServices e2 of
              None \<Rightarrow> (Throw TypeError, e2)
            | Some getMimeTypeByLanguage \<Rightarrow>
                (case editor e2 of
                   None \<Rightarrow> (Throw TypeError, e2)
                 | Some ed \<Rightarrow>
                     (Return (),
                      update (e2\<lparr>editor := Some (ed\<lparr>mimeType := getMimeTypeByLanguage v\<rparr>)\<rparr>))))
         else (Return (), update e2))"

definition handleChangeOnTag :: "jsval \<Rightarrow> jsval list \<Rightarrow> metadata_editor \<Rightarrow> metadata_editor" where
  "handleChangeOnTag selectedTags tags e =
     (let e1 = handleDirtyState True e;
          e2 = metadata_set ''tags'' selectedTags e1
      in e2\<lparr>allTags := tags\<rparr>)"

subsection \<open>Dropdown choices\<close>

text \<open>
  \<open>find(defaultChoices, choice => choice.toLowerCase() === other.toLowerCase())\<close>: the
  first choice that matches, or \<open>undefined\<close> (\<open>None\<close>); \<open>toLowerCase\<close> of a value that is
  not a string throws.
\<close>

fun find_choice :: "jsval \<Rightarrow> jsval list \<Rightarrow> jsval option outcome" where
  "find_choice other [] = Return None"
| "find_choice other (choice # choices) =
     (case toLowerCase choice of
        Throw x \<Rightarrow> Throw x
      | Return a \<Rightarrow>
          (case toLowerCase other of
             Throw x \<Rightarrow> Throw x
           | Return b \<Rightarrow> if a = b then Return (Some choice) else find_choice other choices))"

text \<open>\<open>!find(...)\<close>: nothing found, or a falsy value found.\<close>

fun not_found :: "jsval option \<Rightarrow> bool" where
  "not_found None = True"
| "not_found (Some choice) = (\<not> truthy choice)"

text \<open>
  The loop over \<open>this.allMetadata\<close>. The test \<open>otherMetadata !== this.metadata\<close> compares
  the identity of the element of \<open>allMetadata\<close> with the reference \<open>this.metadata\<close>.
\<close>

fun collectChoices ::
  "metadata_editor \<Rightarrow> string \<Rightarrow> metadata_obj list \<Rightarrow> jsval list \<Rightarrow> jsval list outcome" where
  "collectChoices e fieldName [] defaultChoices = Return defaultChoices"
| "collectChoices e fieldName (otherMetadata # rest) defaultChoices =
     (let other = dict_get (heap e (obj_metadata otherMetadata)) fieldName in
      if obj_ref otherMetadata \<noteq> metadata e \<and> truthy other then
        (case find_choice other defaultChoices of
           Throw x \<Rightarrow> Throw x
         | Return found \<Rightarrow>
             if not_found found then collectChoices e fieldName rest (defaultChoices @ [other])
             else collectChoices e fieldName rest defaultChoices)
      else collectChoices e fieldName rest defaultChoices)"

definition getDefaultChoices :: "string \<Rightarrow> metadata_editor \<Rightarrow> jsval list outcome" where
  "getDefaultChoices fieldName e =
     (case map_of (schema e) fieldName of
        None \<Rightarrow> Throw TypeError
      | Some d \<Rightarrow>
          (case fd_enum d of
             Some choices \<Rightarrow> Return choices
           | None \<Rightarrow>
               (case fd_uihints d of
                  None \<Rightarrow> Throw TypeError
                | Some u \<Rightarrow>
                    collectChoices e fieldName (allMetadata e)
                      (case default_choices u of None \<Rightarrow> [] | Some choices \<Rightarrow> choices))))"

subsection \<open>Rendering a field\<close>

text \<open>
  The element \<open>renderField\<close> returns, with the properties it computes: for a text input
  the field name, \<open>defaultValue\<close>, \<open>required\<close> and \<open>error\<close>; for a dropdown the field name,
  \<open>required\<close>, \<open>error\<close>, \<open>choice\<close>, \<open>defaultChoices\<close> and \<open>allowCreate\<close>; for the code input
  \<open>required\<close> and \<open>error\<close>; for the tags input \<open>selectedTags\<close> and \<open>tags\<close>. \<open>required\<close> is
  \<open>this.requiredFields && this.requiredFields.includes(fieldName)\<close>, \<open>undefined\<close> when
  \<open>requiredFields\<close> is.
\<close>

datatype element =
    TextInput string jsval jsval "bool option"
  | DropDown string jsval "bool option" jsval "jsval list" bool
  | CodeInput jsval "bool option"
  | TagsInput jsval "jsval list"
  | NoElement

definition renderField :: "string \<Rightarrow> metadata_editor \<Rightarrow> element outcome \<times> metadata_editor" where
  "renderField fieldName e =
     (case map_of (schema e) fieldName of
        None \<Rightarrow> (Throw TypeError, e)
      | Some d \<Rightarrow>
          (let required = (case requiredFields e of
                             None \<Rightarrow> Undefined
                           | Some rf \<Rightarrow> Bool (fieldName \<in> set rf));
               defaultValue = js_or (fd_default d) (Str []);
               u = (case fd_uihints d of None \<Rightarrow> empty_uihints | Some u0 \<Rightarrow> u0);
               e1 = (case fd_uihints d of
                       None \<Rightarrow>
                         e\<lparr>schema := AList.update fieldName
                              (d\<lparr>fd_uihints := Some empty_uihints\<rparr>) (schema e)\<rparr>
                     | Some u0 \<Rightarrow> e)
           in if field_type u = Some ''textinput'' \<or> field_type u = None then
                (Return (TextInput fieldName (js_or (metadata_get e1 fieldName) defaultValue)
                           required (error u)), e1)
              else if field_type u = Some ''dropdown'' then
                (case getDefaultChoices fieldName e1 of
                   Throw x \<Rightarrow> (Throw x, e1)
                 | Return choices \<Rightarrow>
                     (Return (DropDown fieldName required (error u) (metadata_get e1 fieldName)
                                choices (fd_enum d = None)), e1))
              else if field_type u = Some ''code'' then (Return (CodeInput required (error u)), e1)
              else if field_type u = Some ''tags'' then
                (Return (TagsInput (metadata_get e1 ''tags'') (allTags e1)), e1)
              else (Return NoElement, e1)))"

subsection \<open>Initialisation\<close>

text \<open>
  \<open>onInitializedMetadata\<close>: creates the code editor when there is none yet and the
  document has the element to hold it. Of the new editor only the mime type is kept;
  the initial text \<open>code.join('\n')\<close> is represented by its condition to exist, that
  \<open>this.metadata['code']\<close> is an array.
\<close>

definition onInitializedMetadata :: "metadata_editor \<Rightarrow> unit outcome \<times> metadata_editor" where
  "onInitializedMetadata e =
     (if editor e = None \<and> codeNodePresent e then
        (case editorServices e of
           None \<Rightarrow> (Throw TypeError, e)
         | Some getMimeTypeByLanguage \<Rightarrow>
             (case (if has_name (name e)
                    then (if isArray (metadata_get e ''code'') then Return e else Throw TypeError)
                    else (case code e of
                            None \<Rightarrow> Return e
                          | Some c \<Rightarrow> Return (metadata_set ''code'' (Arr (map Str c)) e))) of
                Throw x \<Rightarrow> (Throw x, e)
              | Return e1 \<Rightarrow>
                  (Return (),
                   e1\<lparr>editor :=
                        Some \<lparr>mimeType = getMimeTypeByLanguage (metadata_get e1 ''language'')\<rparr>\<rparr>)))
      else (Return (), e))"

text \<open>
  The parsed answer of \<open>getMetadata\<close> becomes objects: each record takes two fresh
  references, one for the record object and one for its dictionary.
\<close>

fun allocate :: "metadata_json list \<Rightarrow> metadata_editor \<Rightarrow> metadata_obj list \<times> metadata_editor" where
  "allocate [] e = ([], e)"
| "allocate (j # js) e =
     (let r = next_ref e;
          m = \<lparr>obj_ref = r, obj_name = mj_name j, obj_display_name = mj_display_name j,
               obj_metadata = Suc r\<rparr>;
          e1 = e\<lparr>heap := (heap e)(Suc r := map_of (mj_metadata j)), next_ref := Suc (Suc r)\<rparr>
      in case allocate js e1 of (ms, e2) \<Rightarrow> (m # ms, e2))"

text \<open>The inner loop \<open>for (const tag of tags) if (!allTags.includes(tag)) allTags.push(tag)\<close>.\<close>

fun addTags :: "jsval list \<Rightarrow> jsval list \<Rightarrow> jsval list" where
  "addTags [] tags = tags"
| "addTags (tag # rest) tags =
     addTags rest (if \<not> js_includes tags tag then tags @ [tag] else tags)"

text \<open>The loop \<open>for (const metadata of this.allMetadata)\<close> of \<open>initializeMetadata\<close>.\<close>

fun scanMetadata :: "metadata_obj list \<Rightarrow> metadata_editor \<Rightarrow> unit outcome \<times> metadata_editor" where
  "scanMetadata [] e = (Return (), e)"
| "scanMetadata (m # ms) e =
     (let tags = dict_get (heap e (obj_metadata m)) ''tags'' in
      case (if truthy tags
            then (case js_iterate tags of
                    Throw x \<Rightarrow> Throw x
                  | Return ts \<Rightarrow> Return (e\<lparr>allTags := addTags ts (allTags e)\<rparr>))
            else Return (e\<lparr>heap := (heap e)(obj_metadata m :=
                                     (heap e (obj_metadata m))(''tags'' \<mapsto> Arr []))\<rparr>)) of
        Throw x \<Rightarrow> (Throw x, e)
      | Return e1 \<Rightarrow>
          scanMetadata ms
            (if name e1 = Some (obj_name m)
             then e1\<lparr>metadata := obj_metadata m, displayName := obj_display_name m\<rparr>
             else e1))"

text \<open>
  \<open>initializeMetadata\<close>, given the answers of \<open>getSchema\<close> and \<open>getMetadata\<close> (\<open>None\<close> when the
  request fails, which is reported and otherwise ignored). The first schema of the right
  name is taken. The title's label and the index of the schema's properties by category,
  which \<open>initializeMetadata\<close> also sets, are not part of the state.
\<close>

definition loadSchema :: "schema_doc list option \<Rightarrow> metadata_editor \<Rightarrow> metadata_editor" where
  "loadSchema answer e =
     (case answer of
        None \<Rightarrow> e\<lparr>serverErrors := Suc (serverErrors e)\<rparr>
      | Some schemas \<Rightarrow>
          (case find (\<lambda>s. schemaName e = sd_name s) schemas of
             None \<Rightarrow> e
           | Some s \<Rightarrow>
               e\<lparr>schema := sd_properties s,
                 schemaDisplayName := Some (sd_title s),
                 requiredFields := sd_required s\<rparr>))"

definition loadMetadata :: "metadata_json list option \<Rightarrow> metadata_editor \<Rightarrow> metadata_editor" where
  "loadMetadata answer e =
     (case answer of
        None \<Rightarrow> e\<lparr>serverErrors := Suc (serverErrors e)\<rparr>
      | Some js \<Rightarrow> (case allocate js e of (ms, e1) \<Rightarrow> e1\<lparr>allMetadata := ms\<rparr>))"

definition initializeMetadata ::
  "schema_doc list option \<Rightarrow> metadata_json list option \<Rightarrow> metadata_editor
     \<Rightarrow> unit outcome \<times> metadata_editor" where
  "initializeMetadata schemas records e =
     (let e1 = loadSchema schemas e;
          e2 = loadMetadata records e1
      in case (if has_name (name e2) then scanMetadata (allMetadata e2) e2
               else (Return (), e2\<lparr>displayName := Str []\<rparr>)) of
           (Throw x, e3) \<Rightarrow> (Throw x, e3)
         | (Return u, e3) \<Rightarrow>
             (case onInitializedMetadata e3 of
                (Throw x, e4) \<Rightarrow> (Throw x, e4)
              | (Return u', e4) \<Rightarrow> (Return (), update e4)))"

subsection \<open>States and inputs used in the statements\<close>

text \<open>
  The two states of the dirty tracker, as \<open>handleDirtyState\<close> leaves them: in the Dirty
  state the flag is set, the editor holds the host's handle and the title carries the
  dirty class; in the Clean state the flag is cleared, no handle is held and the title
  does not carry the class.
\<close>

definition is_dirty_state :: "metadata_editor \<Rightarrow> bool" where
  "is_dirty_state e \<longleftrightarrow>
     dirty e = Some True \<and> clearDirty e \<noteq> None \<and> str_includes (titleClassName e) DIRTY_CLASS"

definition is_clean_state :: "metadata_editor \<Rightarrow> bool" where
  "is_clean_state e \<longleftrightarrow>
     dirty e = Some False \<and> clearDirty e = None \<and> \<not> str_includes (titleClassName e) DIRTY_CLASS"

text \<open>Properties handed to the constructor: an editor for a new record of a schema.\<close>

definition new_props :: props where
  "new_props =
     \<lparr>props_schema = ''code-snippet'', props_namespace = ''code-snippets'', props_name = None,
      props_code = None, props_editorServices = None,
      props_status = \<lparr>issued = 0, live = []\<rparr>\<rparr>"

text \<open>
  Reading the schema: whether \<open>schema[f].uihints\<close> is an object, the flag
  \<open>schema[f].uihints.error\<close>, and \<open>schema[f].default\<close>.
\<close>

definition has_uihints :: "metadata_editor \<Rightarrow> string \<Rightarrow> bool" where
  "has_uihints e f = (case map_of (schema e) f of None \<Rightarrow> False | Some d \<Rightarrow> fd_uihints d \<noteq> None)"

definition error_flag :: "metadata_editor \<Rightarrow> string \<Rightarrow> bool option" where
  "error_flag e f =
     (case map_of (schema e) f of
        None \<Rightarrow> None
      | Some d \<Rightarrow> (case fd_uihints d of None \<Rightarrow> None | Some u \<Rightarrow> error u))"

definition schema_default :: "metadata_editor \<Rightarrow> string \<Rightarrow> jsval" where
  "schema_default e f = (case map_of (schema e) f of None \<Rightarrow> Undefined | Some d \<Rightarrow> fd_default d)"

text \<open>
  The value validation looks at, as the source computes it
  (\<open>this.metadata[f] || this.schema[f].default\<close>), and as the specification words it
  (\<open>record[f] ?? schema[f].default\<close>).
\<close>

definition validated_value :: "metadata_editor \<Rightarrow> string \<Rightarrow> jsval" where
  "validated_value e f = js_or (metadata_get e f) (schema_default e f)"

definition spec_validated_value :: "metadata_editor \<Rightarrow> string \<Rightarrow> jsval" where
  "spec_validated_value e f = nullish_coalesce (metadata_get e f) (schema_default e f)"

text \<open>The write \<open>this.schema[f].uihints.error = b\<close>, for a field that has \<open>uihints\<close>.\<close>

definition set_error :: "string \<Rightarrow> bool \<Rightarrow> metadata_editor \<Rightarrow> metadata_editor" where
  "set_error f b e =
     (case map_of (schema e) f of
        None \<Rightarrow> e
      | Some d \<Rightarrow>
          (case fd_uihints d of
             None \<Rightarrow> e
           | Some u \<Rightarrow>
               e\<lparr>schema := AList.update f (d\<lparr>fd_uihints := Some (u\<lparr>error := Some b\<rparr>)\<rparr>) (schema e)\<rparr>))"

text \<open>
  A schema with one required text field \<open>kind\<close> whose default is \<open>x\<close>, and an editor for a
  new record of it in which the user has typed the name \<open>n\<close> and then emptied the field
  \<open>kind\<close> (a required field, so the empty string is stored).
\<close>

definition kind_schema :: schema_doc where
  "kind_schema =
     \<lparr>sd_name = ''code-snippet'', sd_title = ''Code Snippet'',
      sd_properties =
        [(''kind'', \<lparr>fd_default = Str ''x'', fd_enum = None, fd_uihints = Some empty_uihints\<rparr>)],
      sd_required = Some [''kind'']\<rparr>"

definition kind_loaded :: metadata_editor where
  "kind_loaded =
     snd (handleTextInputChange (Str ''n'') ''display_name''
       (snd (initializeMetadata (Some [kind_schema]) (Some []) (newMetadataEditor new_props))))"

definition kind_emptied :: metadata_editor where
  "kind_emptied = snd (handleTextInputChange (Str []) ''kind'' kind_loaded)"

text \<open>
  A schema whose only field \<open>note\<close> has no \<open>uihints\<close> and is not required, and an editor
  for a new record of it, as initialisation leaves it.
\<close>

definition note_schema :: schema_doc where
  "note_schema =
     \<lparr>sd_name = ''code-snippet'', sd_title = ''Code Snippet'',
      sd_properties =
        [(''note'', \<lparr>fd_default = Undefined, fd_enum = None, fd_uihints = None\<rparr>)],
      sd_required = Some []\<rparr>"

definition note_loaded :: metadata_editor where
  "note_loaded =
     snd (initializeMetadata (Some [note_schema]) (Some []) (newMetadataEditor new_props))"

text \<open>
  The payload of a save in state \<open>e\<close>: schema name, display name and the dictionary
  \<open>this.metadata\<close> refers to.
\<close>

definition newMetadata :: "metadata_editor \<Rightarrow> payload" where
  "newMetadata e =
     \<lparr>schema_name = schemaName e, display_name = displayName e,
      payload_metadata = heap e (metadata e)\<rparr>"

text \<open>
  A schema with the required text field \<open>api_endpoint\<close> (no default), and three editors
  of it: one for a new record right after initialisation, one for a new record after the
  user typed a name and an endpoint, and one opened for the existing record \<open>r1\<close>.
\<close>

definition endpoint_schema :: schema_doc where
  "endpoint_schema =
     \<lparr>sd_name = ''code-snippet'', sd_title = ''Code Snippet'',
      sd_properties =
        [(''api_endpoint'',
          \<lparr>fd_default = Undefined, fd_enum = None, fd_uihints = Some empty_uihints\<rparr>)],
      sd_required = Some [''api_endpoint'']\<rparr>"

definition endpoint_record :: metadata_json where
  "endpoint_record =
     \<lparr>mj_name = ''r1'', mj_display_name = Str ''R1'',
      mj_metadata = [(''api_endpoint'', Str ''u'')]\<rparr>"

definition edit_props :: props where
  "edit_props = new_props\<lparr>props_name := Some ''r1''\<rparr>"

definition endpoint_new :: metadata_editor where
  "endpoint_new =
     snd (initializeMetadata (Some [endpoint_schema]) (Some [endpoint_record])
            (newMetadataEditor new_props))"

definition endpoint_filled :: metadata_editor where
  "endpoint_filled =
     snd (handleTextInputChange (Str ''u'') ''api_endpoint''
       (snd (handleTextInputChange (Str ''n'') ''display_name'' endpoint_new)))"

definition endpoint_existing :: metadata_editor where
  "endpoint_existing =
     snd (initializeMetadata (Some [endpoint_schema]) (Some [endpoint_record])
            (newMetadataEditor edit_props))"

text \<open>
  The record under edit as a mapping from field names to values, and the payload of a
  call of the service.
\<close>

definition record_fields :: "metadata_editor \<Rightarrow> dict" where
  "record_fields e = heap e (metadata e)"

fun call_payload :: "service_call \<Rightarrow> payload" where
  "call_payload (PostMetadata ns p) = p"
| "call_payload (PutMetadata ns n p) = p"

text \<open>
  A schema with two dropdown fields, neither required: \<open>kind\<close> with the default choice
  \<open>x\<close> and no \<open>enum\<close>, and \<open>level\<close> with the \<open>enum\<close> \<open>low\<close>, \<open>high\<close>. The namespace holds
  the records \<open>r1\<close>, \<open>r2\<close>, \<open>r3\<close> whose \<open>kind\<close> is \<open>z\<close>, \<open>X\<close> and \<open>y\<close>. The editors: one
  opened for the existing record \<open>r1\<close>; one for a new record; the latter after the user
  typed the name \<open>n\<close>; and after the dropdown \<open>kind\<close> was then set to \<open>(No selection)\<close>.
\<close>

definition choice_schema :: schema_doc where
  "choice_schema =
     \<lparr>sd_name = ''code-snippet'', sd_title = ''Code Snippet'',
      sd_properties =
        [(''kind'',
          \<lparr>fd_default = Undefined, fd_enum = None,
           fd_uihints = Some \<lparr>field_type = Some ''dropdown'',
                              default_choices = Some [Str ''x''], error = None\<rparr>\<rparr>),
         (''level'',
          \<lparr>fd_default = Undefined, fd_enum = Some [Str ''low'', Str ''high''],
           fd_uihints = Some \<lparr>field_type = Some ''dropdown'',
                              default_choices = None, error = None\<rparr>\<rparr>)],
      sd_required = Some []\<rparr>"

definition choice_records :: "metadata_json list" where
  "choice_records =
     [\<lparr>mj_name = ''r1'', mj_display_name = Str ''R1'', mj_metadata = [(''kind'', Str ''z'')]\<rparr>,
      \<lparr>mj_name = ''r2'', mj_display_name = Str ''R2'', mj_metadata = [(''kind'', Str ''X'')]\<rparr>,
      \<lparr>mj_name = ''r3'', mj_display_name = Str ''R3'', mj_metadata = [(''kind'', Str ''y'')]\<rparr>]"

definition choice_existing :: metadata_editor where
  "choice_existing =
     snd (initializeMetadata (Some [choice_schema]) (Some choice_records)
            (newMetadataEditor edit_props))"

definition choice_new :: metadata_editor where
  "choice_new =
     snd (initializeMetadata (Some [choice_schema]) (Some choice_records)
            (newMetadataEditor new_props))"

definition choice_named :: metadata_editor where
  "choice_named = snd (handleTextInputChange (Str ''n'') ''display_name'' choice_new)"

definition choice_unselected :: metadata_editor where
  "choice_unselected = snd (handleDropdownChange ''kind'' (Str ''(No selection)'') choice_named)"

text \<open>
  A schema whose \<open>metadata\<close> sub-schema has no \<open>required\<close> list, with the one text field
  \<open>note\<close>, and an editor for a new record of it, as initialisation leaves it.
\<close>

definition optional_schema :: schema_doc where
  "optional_schema =
     \<lparr>sd_name = ''code-snippet'', sd_title = ''Code Snippet'',
      sd_properties =
        [(''note'', \<lparr>fd_default = Undefined, fd_enum = None, fd_uihints = Some empty_uihints\<rparr>)],
      sd_required = None\<rparr>"

definition optional_loaded :: metadata_editor where
  "optional_loaded =
     snd (initializeMetadata (Some [optional_schema]) (Some []) (newMetadataEditor new_props))"

text \<open>
  The same editor after the user typed \<open>abc\<close> into the field \<open>note\<close>.
\<close>

definition optional_typed :: metadata_editor where
  "optional_typed = snd (handleTextInputChange (Str ''abc'') ''note'' optional_loaded)"

text \<open>
  Tags: the value of \<open>tags\<close> in the dictionary at a reference and in a fetched record;
  whether the loop over it can run (it is falsy, and then not iterated, or iterable); and
  the tags the loop then sees.
\<close>

definition tags_at :: "metadata_editor \<Rightarrow> ref \<Rightarrow> jsval" where
  "tags_at e r = dict_get (heap e r) ''tags''"

definition json_tags :: "metadata_json \<Rightarrow> jsval" where
  "json_tags j = dict_get (map_of (mj_metadata j)) ''tags''"

definition iterable_tags :: "jsval \<Rightarrow> bool" where
  "iterable_tags t \<longleftrightarrow>
     \<not> truthy t \<or> (case js_iterate t of Return ts \<Rightarrow> True | Throw x \<Rightarrow> False)"

definition tag_list :: "jsval \<Rightarrow> jsval list" where
  "tag_list t =
     (if truthy t then (case js_iterate t of Return ts \<Rightarrow> ts | Throw x \<Rightarrow> []) else [])"

text \<open>
  Three fetched records: \<open>r1\<close> with the tags \<open>a\<close>, \<open>b\<close>, \<open>r2\<close> without a \<open>tags\<close> field, \<open>r3\<close>
  with the tags \<open>b\<close>, \<open>c\<close>; and the editors initialised with them, one for a new record and
  one for the existing record \<open>r1\<close>.
\<close>

definition tagged_records :: "metadata_json list" where
  "tagged_records =
     [\<lparr>mj_name = ''r1'', mj_display_name = Str ''R1'',
       mj_metadata = [(''tags'', Arr [Str ''a'', Str ''b''])]\<rparr>,
      \<lparr>mj_name = ''r2'', mj_display_name = Str ''R2'', mj_metadata = []\<rparr>,
      \<lparr>mj_name = ''r3'', mj_display_name = Str ''R3'',
       mj_metadata = [(''tags'', Arr [Str ''b'', Str ''c''])]\<rparr>]"

definition tagged_new :: metadata_editor where
  "tagged_new =
     snd (initializeMetadata (Some [note_schema]) (Some tagged_records)
            (newMetadataEditor new_props))"

definition tagged_existing :: metadata_editor where
  "tagged_existing =
     snd (initializeMetadata (Some [note_schema]) (Some tagged_records)
            (newMetadataEditor edit_props))"

text \<open>One round of the loop of \<open>initializeMetadata\<close> over the records, for tags that are falsy or
  iterable.\<close>

definition scan_step :: "metadata_obj \<Rightarrow> metadata_editor \<Rightarrow> metadata_editor" where
  "scan_step m e =
     (let t = tags_at e (obj_metadata m);
          e1 = (if truthy t then e\<lparr>allTags := addTags (tag_list t) (allTags e)\<rparr>
                else e\<lparr>heap := (heap e)(obj_metadata m :=
                                  (heap e (obj_metadata m))(''tags'' \<mapsto> Arr []))\<rparr>)
      in if name e1 = Some (obj_name m)
         then e1\<lparr>metadata := obj_metadata m, displayName := obj_display_name m\<rparr>
         else e1)"

section \<open>Properties\<close>

subsection \<open>Evaluating the example states\<close>

text \<open>The definitions to unfold when a statement about an example state is computed.\<close>

lemmas eval_defs =
  new_props_def newMetadataEditor_def initializeMetadata_def loadSchema_def loadMetadata_def
  onInitializedMetadata_def update_def handleTextInputChange_def handleDirtyState_def setDirty_def
  dispose_def DIRTY_CLASS_def metadata_set_def metadata_delete_def metadata_get_def dict_get_def
  empty_uihints_def Let_def

lemmas kind_defs = kind_emptied_def kind_loaded_def kind_schema_def

subsection \<open>Emptiness\<close>

text \<open>
  C1. For every value \<open>v\<close>, \<open>isValueEmpty v\<close> holds if and only if \<open>v\<close> is one of
  \<open>undefined\<close>, \<open>null\<close>, the empty string, the empty array, the array holding only the
  empty string, or the string \<open>(No selection)\<close>.
\<close>

theorem isValueEmpty_iff:
  "isValueEmpty v \<longleftrightarrow>
     v \<in> {Undefined, Null, Str [], Arr [], Arr [Str []], Str ''(No selection)''}"
proof (cases v)
  case (Arr xs)
  then show ?thesis
    by (cases xs) (auto simp: isValueEmpty_def)
qed (auto simp: isValueEmpty_def)

subsection \<open>The dirty tracker\<close>

lemma starts_with_append: "starts_with (p @ s) p"
  by (induction p) auto

lemma str_includes_append: "str_includes (s @ p) p"
proof (induction s)
  case Nil
  show ?case using starts_with_append [of p "[]"] by (cases p) auto
next
  case (Cons c s)
  then show ?case by simp
qed

lemma str_remove_first_absent: "\<not> str_includes s p \<Longrightarrow> str_remove_first s p = s"
  by (induction s) auto

lemma dirty_established: "is_dirty_state (handleDirtyState True e)"
  by (auto simp: is_dirty_state_def handleDirtyState_def Let_def setDirty_def str_includes_append
      split: option.splits)

lemma starts_with_iff: "starts_with s p \<longleftrightarrow> (\<exists>t. s = p @ t)"
  by (induction s p rule: starts_with.induct) auto

lemma dirty_class_no_overlap:
  assumes "starts_with (s @ DIRTY_CLASS) DIRTY_CLASS" and "s \<noteq> []"
  shows "starts_with s DIRTY_CLASS"
proof -
  from assms(1) obtain t where "s @ DIRTY_CLASS = DIRTY_CLASS @ t"
    by (auto simp: starts_with_iff)
  then obtain us where
    "s = DIRTY_CLASS @ us \<and> us @ DIRTY_CLASS = t \<or> s @ us = DIRTY_CLASS \<and> DIRTY_CLASS = us @ t"
    by (auto simp: append_eq_append_conv2)
  then show ?thesis
  proof
    assume "s = DIRTY_CLASS @ us \<and> us @ DIRTY_CLASS = t"
    then show ?thesis by (auto simp: starts_with_iff)
  next
    assume a: "s @ us = DIRTY_CLASS \<and> DIRTY_CLASS = us @ t"
    show ?thesis
    proof (cases "us = []")
      case True
      with a show ?thesis by (auto simp: starts_with_iff)
    next
      case False
      then obtain u us' where us: "us = u # us'" by (cases us) auto
      from assms(2) obtain x s' where s: "s = x # s'" by (cases s) auto
      from a us have "u = CHR ''j''" by (simp add: DIRTY_CLASS_def)
      moreover from a s us have "u \<in> set (tl DIRTY_CLASS)"
        by (metis append_Cons in_set_conv_decomp list.sel(3))
      moreover have "CHR ''j'' \<notin> set (tl DIRTY_CLASS)" by (simp add: DIRTY_CLASS_def)
      ultimately show ?thesis by simp
    qed
  qed
qed

lemma str_remove_first_appended:
  "\<not> str_includes c DIRTY_CLASS \<Longrightarrow> str_remove_first (c @ DIRTY_CLASS) DIRTY_CLASS = c"
proof (induction c)
  case Nil
  show ?case by (simp add: DIRTY_CLASS_def)
next
  case (Cons x cs)
  then have n: "\<not> starts_with (x # cs) DIRTY_CLASS" and i: "\<not> str_includes cs DIRTY_CLASS"
    by simp_all
  have "\<not> starts_with ((x # cs) @ DIRTY_CLASS) DIRTY_CLASS"
    using dirty_class_no_overlap [of "x # cs"] n by blast
  then have "str_remove_first ((x # cs) @ DIRTY_CLASS) DIRTY_CLASS =
      x # str_remove_first (cs @ DIRTY_CLASS) DIRTY_CLASS"
    by simp
  with Cons.IH [OF i] show ?case by simp
qed

lemma clean_established:
  assumes "\<not> str_includes (titleClassName e) DIRTY_CLASS"
  shows "is_clean_state (handleDirtyState False e)"
    and "is_clean_state (handleDirtyState False (handleDirtyState True e))"
    and "titleClassName (handleDirtyState False (handleDirtyState True e)) = titleClassName e"
  using assms
  by (auto simp: is_clean_state_def handleDirtyState_def Let_def setDirty_def
      str_remove_first_absent str_remove_first_appended str_includes_append split: option.splits)

text \<open>
  C8. \<open>handleDirtyState\<close> is idempotent: called with \<open>true\<close> in a Dirty state it leaves the
  whole state as it is (the flag, the host's handle and status, the title class), and
  called with \<open>false\<close> in a Clean state likewise. Every call with \<open>true\<close> ends in a Dirty
  state, so a second call with \<open>true\<close> changes nothing; and when the title does not carry
  the dirty class to begin with, every call with \<open>false\<close>, directly or after a call with
  \<open>true\<close>, ends in a Clean state, so a second call with \<open>false\<close> changes nothing.
\<close>

theorem handleDirtyState_idempotent:
  "(is_dirty_state e \<longrightarrow> handleDirtyState True e = e) \<and>
   (is_clean_state e \<longrightarrow> handleDirtyState False e = e) \<and>
   is_dirty_state (handleDirtyState True e) \<and>
   handleDirtyState True (handleDirtyState True e) = handleDirtyState True e \<and>
   (\<not> str_includes (titleClassName e) DIRTY_CLASS \<longrightarrow>
      is_clean_state (handleDirtyState False e) \<and>
      handleDirtyState False (handleDirtyState False e) = handleDirtyState False e \<and>
      is_clean_state (handleDirtyState False (handleDirtyState True e)))"
proof (intro conjI impI)
  show d: "handleDirtyState True e = e" if "is_dirty_state e" for e
    using that by (auto simp: is_dirty_state_def handleDirtyState_def Let_def)
  show c: "handleDirtyState False e = e" if "is_clean_state e" for e
    using that
    by (auto simp: is_clean_state_def handleDirtyState_def Let_def str_remove_first_absent)
  show "is_dirty_state (handleDirtyState True e)"
    by (rule dirty_established)
  show "handleDirtyState True (handleDirtyState True e) = handleDirtyState True e"
    by (rule d) (rule dirty_established)
  assume t: "\<not> str_includes (titleClassName e) DIRTY_CLASS"
  show "is_clean_state (handleDirtyState False e)"
    by (rule clean_established(1) [OF t])
  then show "handleDirtyState False (handleDirtyState False e) = handleDirtyState False e"
    by (rule c)
  show "is_clean_state (handleDirtyState False (handleDirtyState True e))"
    by (rule clean_established(2) [OF t])
qed

theorem handleDirtyState_idempotent_witness:
  "\<not> str_includes (titleClassName (newMetadataEditor new_props)) DIRTY_CLASS \<and>
   is_dirty_state (handleDirtyState True (newMetadataEditor new_props)) \<and>
   handleDirtyState True (handleDirtyState True (newMetadataEditor new_props)) =
     handleDirtyState True (newMetadataEditor new_props) \<and>
   is_clean_state (handleDirtyState False (handleDirtyState True (newMetadataEditor new_props))) \<and>
   handleDirtyState False
     (handleDirtyState False (handleDirtyState True (newMetadataEditor new_props))) =
     handleDirtyState False (handleDirtyState True (newMetadataEditor new_props))"
proof -
  let ?e = "newMetadataEditor new_props"
  have t: "\<not> str_includes (titleClassName ?e) DIRTY_CLASS"
    by (simp add: newMetadataEditor_def DIRTY_CLASS_def)
  have d: "is_dirty_state (handleDirtyState True ?e)"
    and dd: "handleDirtyState True (handleDirtyState True ?e) = handleDirtyState True ?e"
    and c: "is_clean_state (handleDirtyState False (handleDirtyState True ?e))"
    using handleDirtyState_idempotent [of ?e] t by blast+
  have cc: "handleDirtyState False (handleDirtyState False (handleDirtyState True ?e)) =
      handleDirtyState False (handleDirtyState True ?e)"
    using handleDirtyState_idempotent [of "handleDirtyState False (handleDirtyState True ?e)"] c
    by blast
  show ?thesis
    by (intro conjI) (rule t d dd c cc)+
qed

subsection \<open>Validation\<close>

lemma set_error_frame [simp]:
  "set_error f b e\<lparr>schema := s\<rparr> = e\<lparr>schema := s\<rparr>"
  by (simp add: set_error_def split: option.splits)

lemma set_error_fields [simp]:
  "requiredFields (set_error f b e) = requiredFields e"
  "invalidForm (set_error f b e) = invalidForm e"
  "metadata_get (set_error f b e) g = metadata_get e g"
  by (simp_all add: set_error_def metadata_get_def split: option.splits)

lemma map_of_set_error:
  "map_of (schema (set_error f b e)) g =
     (if g = f then
        (case map_of (schema e) f of
           None \<Rightarrow> None
         | Some d \<Rightarrow>
             (case fd_uihints d of
                None \<Rightarrow> Some d
              | Some u \<Rightarrow> Some (d\<lparr>fd_uihints := Some (u\<lparr>error := Some b\<rparr>)\<rparr>)))
      else map_of (schema e) g)"
  by (simp add: set_error_def update_conv' split: option.splits)

lemma set_error_keys [simp]: "map fst (schema (set_error f b e)) = map fst (schema e)"
  by (auto simp: set_error_def AList.update_keys dest: map_of_SomeD weak_map_of_SomeI
      intro: rev_image_eqI split: option.splits)

lemma has_uihints_set_error [simp]: "has_uihints (set_error f b e) g = has_uihints e g"
  by (simp add: has_uihints_def map_of_set_error split: option.splits)

lemma schema_default_set_error [simp]: "schema_default (set_error f b e) g = schema_default e g"
  by (simp add: schema_default_def map_of_set_error split: option.splits)

lemma validated_value_set_error [simp]: "validated_value (set_error f b e) g = validated_value e g"
  by (simp add: validated_value_def)

lemma error_flag_set_error:
  "has_uihints e f \<Longrightarrow>
   error_flag (set_error f b e) g = (if g = f then Some b else error_flag e g)"
  by (auto simp: error_flag_def has_uihints_def map_of_set_error split: option.splits)

lemma has_uihints_invalidForm [simp]: "has_uihints (e\<lparr>invalidForm := b\<rparr>) g = has_uihints e g"
  by (simp add: has_uihints_def)

lemma validated_value_invalidForm [simp]:
  "validated_value (e\<lparr>invalidForm := b\<rparr>) g = validated_value e g"
  by (simp add: validated_value_def metadata_get_def schema_default_def)

lemma error_flag_invalidForm [simp]: "error_flag (e\<lparr>invalidForm := b\<rparr>) g = error_flag e g"
  by (simp add: error_flag_def)

text \<open>One round of the loop, for a field with uihints and a defined requiredFields.\<close>

lemma validateFields_Cons:
  assumes "requiredFields e = Some rf" and "has_uihints e f"
  shows "validateFields (f # ks) e =
           (if f \<in> set rf \<and> isValueEmpty (validated_value e f)
            then validateFields ks (set_error f True (e\<lparr>invalidForm := True\<rparr>))
            else validateFields ks (set_error f False e))"
  using assms
  by (auto simp: has_uihints_def set_error_def validated_value_def schema_default_def
      metadata_get_def Let_def split: option.splits)


lemma frame_trans:
  fixes e e1 e' :: metadata_editor
  assumes "e'\<lparr>schema := schema e1, invalidForm := invalidForm e1\<rparr> = e1"
    and "e1\<lparr>schema := schema e, invalidForm := invalidForm e\<rparr> = e"
  shows "e'\<lparr>schema := schema e, invalidForm := invalidForm e\<rparr> = e"
proof -
  have "e'\<lparr>schema := schema e, invalidForm := invalidForm e\<rparr> =
        (e'\<lparr>schema := schema e1, invalidForm := invalidForm e1\<rparr>)
          \<lparr>schema := schema e, invalidForm := invalidForm e\<rparr>"
    by simp
  also have "\<dots> = e" by (simp only: assms)
  finally show ?thesis .
qed

lemma validateFields_run:
  assumes "requiredFields e = Some rf" and "\<forall>f\<in>set ks. has_uihints e f"
  shows "\<exists>e'. validateFields ks e = (Return (), e') \<and>
           e'\<lparr>schema := schema e, invalidForm := invalidForm e\<rparr> = e \<and>
           map fst (schema e') = map fst (schema e) \<and>
           (invalidForm e' \<longleftrightarrow>
              invalidForm e \<or> (\<exists>f\<in>set ks. f \<in> set rf \<and> isValueEmpty (validated_value e f))) \<and>
           (\<forall>g. has_uihints e' g = has_uihints e g) \<and>
           (\<forall>g. error_flag e' g =
                  (if g \<in> set ks then Some (g \<in> set rf \<and> isValueEmpty (validated_value e g))
                   else error_flag e g))"
  using assms
proof (induction ks arbitrary: e)
  case Nil
  then show ?case by simp
next
  case (Cons f ks)
  define b where "b \<longleftrightarrow> f \<in> set rf \<and> isValueEmpty (validated_value e f)"
  define e1 where "e1 = set_error f b (if b then e\<lparr>invalidForm := True\<rparr> else e)"
  have uf: "has_uihints e f" using Cons.prems(2) by simp
  have step: "validateFields (f # ks) e = validateFields ks e1"
    by (subst validateFields_Cons [OF Cons.prems(1) uf]) (auto simp: e1_def b_def)
  have r1: "requiredFields e1 = Some rf" using Cons.prems(1) by (simp add: e1_def)
  have u1: "has_uihints e1 g = has_uihints e g" for g by (simp add: e1_def)
  have v1: "validated_value e1 g = validated_value e g" for g by (simp add: e1_def)
  have i1: "invalidForm e1 \<longleftrightarrow> invalidForm e \<or> b" by (simp add: e1_def)
  have k1: "map fst (schema e1) = map fst (schema e)" by (simp add: e1_def)
  have f1: "e1\<lparr>schema := schema e, invalidForm := invalidForm e\<rparr> = e"
    by (simp add: e1_def)
  have g1: "error_flag e1 g = (if g = f then Some b else error_flag e g)" for g
    using uf by (simp add: e1_def error_flag_set_error)
  have "\<forall>f\<in>set ks. has_uihints e1 f" using Cons.prems(2) by (simp add: u1)
  from Cons.IH [OF r1 this] obtain e' where
    run: "validateFields ks e1 = (Return (), e')" and
    fr: "e'\<lparr>schema := schema e1, invalidForm := invalidForm e1\<rparr> = e1" and
    ks: "map fst (schema e') = map fst (schema e1)" and
    inv: "invalidForm e' \<longleftrightarrow>
            invalidForm e1 \<or> (\<exists>f\<in>set ks. f \<in> set rf \<and> isValueEmpty (validated_value e1 f))" and
    uh: "\<forall>g. has_uihints e' g = has_uihints e1 g" and
    ef: "\<forall>g. error_flag e' g =
              (if g \<in> set ks then Some (g \<in> set rf \<and> isValueEmpty (validated_value e1 g))
               else error_flag e1 g)"
    by blast
  have "validateFields (f # ks) e = (Return (), e')" using step run by simp
  moreover have "e'\<lparr>schema := schema e, invalidForm := invalidForm e\<rparr> = e"
    using fr f1 by (rule frame_trans)
  moreover have "map fst (schema e') = map fst (schema e)" using ks k1 by simp
  moreover have "invalidForm e' \<longleftrightarrow>
      invalidForm e \<or> (\<exists>g\<in>set (f # ks). g \<in> set rf \<and> isValueEmpty (validated_value e g))"
    using inv i1 by (auto simp: v1 b_def)
  moreover have "\<forall>g. has_uihints e' g = has_uihints e g" using uh u1 by simp
  moreover have "\<forall>g. error_flag e' g =
      (if g \<in> set (f # ks) then Some (g \<in> set rf \<and> isValueEmpty (validated_value e g))
       else error_flag e g)"
    using ef g1 by (auto simp: v1 b_def)
  ultimately show ?case by blast
qed

lemma validateFields_throws:
  assumes "requiredFields e = None \<or> \<not> has_uihints e f"
  shows "\<exists>e'. validateFields (f # ks) e = (Throw TypeError, e') \<and>
           e'\<lparr>invalidForm := invalidForm e\<rparr> = e"
  using assms
  by (auto simp: has_uihints_def Let_def split: option.splits)

lemma validateFields_returns_only_if:
  "validateFields ks e = (Return u, e') \<Longrightarrow>
     (\<forall>f\<in>set ks. has_uihints e f) \<and> (ks \<noteq> [] \<longrightarrow> requiredFields e \<noteq> None)"
proof (induction ks arbitrary: e)
  case Nil
  then show ?case by simp
next
  case (Cons f ks)
  have ok: "requiredFields e \<noteq> None \<and> has_uihints e f"
  proof (rule ccontr)
    assume "\<not> (requiredFields e \<noteq> None \<and> has_uihints e f)"
    then have "requiredFields e = None \<or> \<not> has_uihints e f" by blast
    from validateFields_throws [OF this, of ks] Cons.prems show False by auto
  qed
  then obtain rf where rf: "requiredFields e = Some rf" by auto
  define e1 where "e1 =
    (if f \<in> set rf \<and> isValueEmpty (validated_value e f)
     then set_error f True (e\<lparr>invalidForm := True\<rparr>) else set_error f False e)"
  have "validateFields ks e1 = (Return u, e')"
    using Cons.prems ok
    by (subst (asm) validateFields_Cons [OF rf]) (auto simp: e1_def)
  from Cons.IH [OF this] have "\<forall>g\<in>set ks. has_uihints e1 g" by simp
  moreover have "has_uihints e1 g = has_uihints e g" for g by (simp add: e1_def)
  ultimately show ?case using ok by simp
qed

lemma validateFields_frame:
  "validateFields ks e = (r, e') \<Longrightarrow> e'\<lparr>schema := schema e, invalidForm := invalidForm e\<rparr> = e"
proof (induction ks arbitrary: e)
  case Nil
  then show ?case by simp
next
  case (Cons f ks)
  show ?case
  proof (cases "requiredFields e = None \<or> \<not> has_uihints e f")
    case True
    from validateFields_throws [OF this, of ks] Cons.prems
    have eq: "e'\<lparr>invalidForm := invalidForm e\<rparr> = e" by auto
    have "schema e' = schema e" using arg_cong [OF eq, of schema] by simp
    then have "e'\<lparr>schema := schema e, invalidForm := invalidForm e\<rparr> =
               e'\<lparr>invalidForm := invalidForm e\<rparr>"
      by simp
    then show ?thesis using eq by simp
  next
    case False
    then obtain rf where rf: "requiredFields e = Some rf" and uf: "has_uihints e f" by auto
    define e1 where "e1 =
      (if f \<in> set rf \<and> isValueEmpty (validated_value e f)
       then set_error f True (e\<lparr>invalidForm := True\<rparr>) else set_error f False e)"
    have "validateFields ks e1 = (r, e')"
      using Cons.prems uf
      by (subst (asm) validateFields_Cons [OF rf]) (auto simp: e1_def)
    from Cons.IH [OF this]
    have "e'\<lparr>schema := schema e1, invalidForm := invalidForm e1\<rparr> = e1" .
    moreover have "e1\<lparr>schema := schema e, invalidForm := invalidForm e\<rparr> = e"
      by (simp add: e1_def)
    ultimately show ?thesis by (rule frame_trans)
  qed
qed

lemma hasInvalidFields_frame:
  assumes "hasInvalidFields e = (r, e')"
  shows "e'\<lparr>schema := schema e, invalidForm := invalidForm e\<rparr> = e"
proof -
  define e2 where "e2 = e\<lparr>invalidForm := (displayName e = Null \<or> displayName e = Str [])\<rparr>"
  obtain r2 e3 where v: "validateFields (map fst (schema e2)) e2 = (r2, e3)"
    by (cases "validateFields (map fst (schema e2)) e2")
  have "e3 = e'"
    using assms v by (auto simp: hasInvalidFields_def e2_def Let_def split: outcome.splits if_splits)
  moreover have "e3\<lparr>schema := schema e2, invalidForm := invalidForm e2\<rparr> = e2"
    using v by (rule validateFields_frame)
  moreover have "e2\<lparr>schema := schema e, invalidForm := invalidForm e\<rparr> = e"
    by (simp add: e2_def)
  ultimately show ?thesis using frame_trans by blast
qed

lemma hasInvalidFields_unfold:
  "hasInvalidFields e =
     (case validateFields (map fst (schema e))
             (e\<lparr>invalidForm := (displayName e = Null \<or> displayName e = Str [])\<rparr>) of
        (Throw x, e3) \<Rightarrow> (Throw x, e3)
      | (Return u, e3) \<Rightarrow> (Return (invalidForm e3), e3))"
  by (simp add: hasInvalidFields_def Let_def)

lemma hasInvalidFields_run:
  assumes "requiredFields e = Some rf"
    and "\<forall>f\<in>set (map fst (schema e)). has_uihints e f"
  shows "\<exists>e'. hasInvalidFields e = (Return (invalidForm e'), e') \<and>
           (\<forall>f\<in>set (map fst (schema e)).
              validated_value e f = js_or (metadata_get e f) (schema_default e f) \<and>
              error_flag e' f = Some (f \<in> set rf \<and> isValueEmpty (validated_value e f))) \<and>
           (invalidForm e' \<longleftrightarrow>
              displayName e = Null \<or> displayName e = Str [] \<or>
              (\<exists>f\<in>set (map fst (schema e)). f \<in> set rf \<and> isValueEmpty (validated_value e f)))"
proof -
  define e2 where "e2 = e\<lparr>invalidForm := (displayName e = Null \<or> displayName e = Str [])\<rparr>"
  have r2: "requiredFields e2 = Some rf" using assms(1) by (simp add: e2_def)
  have u2: "\<forall>f\<in>set (map fst (schema e)). has_uihints e2 f" using assms(2) by (simp add: e2_def)
  have v2: "validated_value e2 f = validated_value e f" for f by (simp add: e2_def)
  from validateFields_run [OF r2 u2] obtain e' where
    run: "validateFields (map fst (schema e)) e2 = (Return (), e')" and
    inv: "invalidForm e' \<longleftrightarrow> invalidForm e2 \<or>
            (\<exists>f\<in>set (map fst (schema e)). f \<in> set rf \<and> isValueEmpty (validated_value e2 f))" and
    ef: "\<forall>g. error_flag e' g =
           (if g \<in> set (map fst (schema e))
            then Some (g \<in> set rf \<and> isValueEmpty (validated_value e2 g)) else error_flag e2 g)"
    by blast
  have "hasInvalidFields e = (Return (invalidForm e'), e')"
    using run by (simp add: hasInvalidFields_unfold e2_def)
  moreover have "\<forall>f\<in>set (map fst (schema e)).
      validated_value e f = js_or (metadata_get e f) (schema_default e f) \<and>
      error_flag e' f = Some (f \<in> set rf \<and> isValueEmpty (validated_value e f))"
    using ef by (simp add: v2) (simp add: validated_value_def)
  moreover have "invalidForm e' \<longleftrightarrow>
      displayName e = Null \<or> displayName e = Str [] \<or>
      (\<exists>f\<in>set (map fst (schema e)). f \<in> set rf \<and> isValueEmpty (validated_value e f))"
    using inv by (simp add: v2 e2_def)
  ultimately show ?thesis by blast
qed

text \<open>
  C2, as the source has it. When \<open>requiredFields\<close> is loaded and every field of the schema
  has a \<open>uihints\<close> object, \<open>hasInvalidFields\<close> returns, and for every field declared in the
  schema the value it looks at is \<open>this.metadata[field] || this.schema[field].default\<close>: the
  default stands in whenever the stored value is falsy. The field's error flag is set
  exactly when the field is required and that value is empty, and cleared otherwise; the
  form is invalid exactly when the display name is \<open>null\<close> or empty or some flag was set.
\<close>

theorem hasInvalidFields_marks_required_empty:
  assumes "requiredFields e = Some rf"
    and "\<forall>f\<in>set (map fst (schema e)). has_uihints e f"
  shows "\<exists>e'. hasInvalidFields e = (Return (invalidForm e'), e') \<and>
           (\<forall>f\<in>set (map fst (schema e)).
              validated_value e f = js_or (metadata_get e f) (schema_default e f) \<and>
              error_flag e' f = Some (f \<in> set rf \<and> isValueEmpty (validated_value e f))) \<and>
           (invalidForm e' \<longleftrightarrow>
              displayName e = Null \<or> displayName e = Str [] \<or>
              (\<exists>f\<in>set (map fst (schema e)). f \<in> set rf \<and> isValueEmpty (validated_value e f)))"
  using assms by (rule hasInvalidFields_run)

theorem hasInvalidFields_marks_required_empty_witness:
  "requiredFields kind_emptied = Some [''kind''] \<and>
   map fst (schema kind_emptied) = [''kind''] \<and>
   has_uihints kind_emptied ''kind'' \<and>
   validated_value kind_emptied ''kind'' = Str ''x'' \<and>
   (\<exists>e'. hasInvalidFields kind_emptied = (Return False, e') \<and>
         error_flag e' ''kind'' = Some False)"
proof -
  have r: "requiredFields kind_emptied = Some [''kind'']"
    by (simp add: kind_defs eval_defs)
  have k: "map fst (schema kind_emptied) = [''kind'']"
    by (simp add: kind_defs eval_defs)
  have u: "has_uihints kind_emptied ''kind''"
    by (simp add: has_uihints_def kind_defs eval_defs)
  have v: "validated_value kind_emptied ''kind'' = Str ''x''"
    by (simp add: validated_value_def schema_default_def js_or_def kind_defs eval_defs)
  have d: "displayName kind_emptied = Str ''n''"
    by (simp add: kind_defs eval_defs)
  have h: "\<forall>f\<in>set (map fst (schema kind_emptied)). has_uihints kind_emptied f"
    using k u by simp
  from hasInvalidFields_marks_required_empty [OF r h] obtain e' where
    "hasInvalidFields kind_emptied = (Return (invalidForm e'), e')"
    "error_flag e' ''kind'' = Some False" "\<not> invalidForm e'"
    by (auto simp: k v d isValueEmpty_def)
  then show ?thesis using r k u v by auto
qed

text \<open>
  C2, as the specification words it, fails: with the empty string stored for the required
  field \<open>kind\<close> and the default \<open>x\<close>, the value under \<open>??\<close> is the empty string, which is
  empty, yet validation takes the default, clears the field's error flag and reports the
  form valid.
\<close>

theorem hasInvalidFields_nullish_counterexample:
  "requiredFields kind_emptied = Some [''kind''] \<and>
   map fst (schema kind_emptied) = [''kind''] \<and>
   metadata_get kind_emptied ''kind'' = Str [] \<and>
   schema_default kind_emptied ''kind'' = Str ''x'' \<and>
   spec_validated_value kind_emptied ''kind'' = Str [] \<and>
   isValueEmpty (spec_validated_value kind_emptied ''kind'') \<and>
   fst (hasInvalidFields kind_emptied) = Return False \<and>
   error_flag (snd (hasInvalidFields kind_emptied)) ''kind'' = Some False"
  by (simp add: kind_defs eval_defs hasInvalidFields_def js_or_def isValueEmpty_def error_flag_def
      schema_default_def spec_validated_value_def nullish_coalesce_def)

subsection \<open>Validation needs \<open>uihints\<close>\<close>

lemmas note_defs = note_loaded_def note_schema_def

lemma renderField_state:
  assumes "map_of (schema e) f = Some d"
  shows "snd (renderField f e) =
           (case fd_uihints d of
              None \<Rightarrow> e\<lparr>schema := AList.update f (d\<lparr>fd_uihints := Some empty_uihints\<rparr>) (schema e)\<rparr>
            | Some u0 \<Rightarrow> e)"
  using assms
  by (simp add: renderField_def Let_def split: option.splits outcome.splits)

lemma renderField_installs:
  assumes "map_of (schema e) f = Some d"
  shows "map_of (schema (snd (renderField f e))) g =
           (if g = f \<and> fd_uihints d = None then Some (d\<lparr>fd_uihints := Some empty_uihints\<rparr>)
            else map_of (schema e) g)"
  using assms
  by (auto simp: renderField_state update_conv' split: option.splits)

lemma renderField_text_input:
  assumes "map_of (schema e) f = Some d" and "fd_uihints d = None"
  shows "\<exists>v r. fst (renderField f e) = Return (TextInput f v r None)"
  using assms
  by (simp add: renderField_def Let_def empty_uihints_def)

text \<open>
  C9. \<open>hasInvalidFields\<close> writes \<open>schema[field].uihints.error\<close> for every field of the
  schema, on both branches. So it returns only if every field of the schema has a
  \<open>uihints\<close> object; when they all have one (and \<open>requiredFields\<close> is loaded) it returns
  and every field's error flag has been written. \<open>renderField\<close> of a field of the schema
  leaves the field with a \<open>uihints\<close> object, the empty one when it had none, and changes
  no other field in this respect.
\<close>

theorem hasInvalidFields_needs_uihints:
  "((\<exists>b e'. hasInvalidFields e = (Return b, e')) \<longrightarrow>
      (\<forall>f\<in>set (map fst (schema e)). has_uihints e f)) \<and>
   (requiredFields e \<noteq> None \<and> (\<forall>f\<in>set (map fst (schema e)). has_uihints e f) \<longrightarrow>
      (\<exists>b e'. hasInvalidFields e = (Return b, e') \<and>
         (\<forall>f\<in>set (map fst (schema e)). error_flag e' f \<noteq> None))) \<and>
   (f \<in> set (map fst (schema e)) \<longrightarrow>
      has_uihints (snd (renderField f e)) f \<and>
      (\<forall>g. g \<noteq> f \<longrightarrow> has_uihints (snd (renderField f e)) g = has_uihints e g) \<and>
      (\<not> has_uihints e f \<longrightarrow>
         (\<exists>d. map_of (schema e) f = Some d \<and>
              map_of (schema (snd (renderField f e))) f =
                Some (d\<lparr>fd_uihints := Some empty_uihints\<rparr>))))"
proof (intro conjI impI)
  assume "\<exists>b e'. hasInvalidFields e = (Return b, e')"
  then obtain b e' where h: "hasInvalidFields e = (Return b, e')" by blast
  define e2 where "e2 = e\<lparr>invalidForm := (displayName e = Null \<or> displayName e = Str [])\<rparr>"
  obtain r2 e3 where v: "validateFields (map fst (schema e)) e2 = (r2, e3)"
    by (cases "validateFields (map fst (schema e)) e2")
  with h obtain u where "r2 = Return u"
    by (cases r2) (auto simp: hasInvalidFields_unfold e2_def)
  with v have "validateFields (map fst (schema e)) e2 = (Return u, e3)" by simp
  from validateFields_returns_only_if [OF this]
  have "\<forall>f\<in>set (map fst (schema e)). has_uihints e2 f" by simp
  then show "\<forall>f\<in>set (map fst (schema e)). has_uihints e f" by (simp add: e2_def)
next
  assume a: "requiredFields e \<noteq> None \<and> (\<forall>f\<in>set (map fst (schema e)). has_uihints e f)"
  then obtain rf where rf: "requiredFields e = Some rf" by auto
  from a have "\<forall>f\<in>set (map fst (schema e)). has_uihints e f" by simp
  from hasInvalidFields_run [OF rf this] obtain e' where
    r: "hasInvalidFields e = (Return (invalidForm e'), e')" and
    ef: "\<forall>f\<in>set (map fst (schema e)).
           validated_value e f = js_or (metadata_get e f) (schema_default e f) \<and>
           error_flag e' f = Some (f \<in> set rf \<and> isValueEmpty (validated_value e f))"
    by blast
  from ef have "\<forall>f\<in>set (map fst (schema e)). error_flag e' f \<noteq> None" by simp
  with r show "\<exists>b e'. hasInvalidFields e = (Return b, e') \<and>
          (\<forall>f\<in>set (map fst (schema e)). error_flag e' f \<noteq> None)"
    by blast
next
  assume "f \<in> set (map fst (schema e))"
  then obtain d where d: "map_of (schema e) f = Some d"
    by (cases "map_of (schema e) f") (auto simp: map_of_eq_None_iff)
  show "has_uihints (snd (renderField f e)) f"
    by (simp add: has_uihints_def renderField_installs [OF d]) (use d in \<open>simp add: has_uihints_def\<close>)
  show "\<forall>g. g \<noteq> f \<longrightarrow> has_uihints (snd (renderField f e)) g = has_uihints e g"
    by (simp add: has_uihints_def renderField_installs [OF d])
  show "\<exists>d. map_of (schema e) f = Some d \<and>
          map_of (schema (snd (renderField f e))) f = Some (d\<lparr>fd_uihints := Some empty_uihints\<rparr>)"
    if "\<not> has_uihints e f"
    using that d by (simp add: has_uihints_def renderField_installs [OF d])
qed


theorem hasInvalidFields_needs_uihints_witness:
  "\<not> has_uihints note_loaded ''note'' \<and>
   fst (hasInvalidFields note_loaded) = Throw TypeError \<and>
   has_uihints (snd (renderField ''note'' note_loaded)) ''note'' \<and>
   (\<exists>b e'. hasInvalidFields (snd (renderField ''note'' note_loaded)) = (Return b, e') \<and>
      error_flag e' ''note'' \<noteq> None)"
proof -
  let ?e = "snd (renderField ''note'' note_loaded)"
  have k: "map fst (schema note_loaded) = [''note'']"
    by (simp add: note_defs eval_defs)
  have nu: "\<not> has_uihints note_loaded ''note''"
    by (simp add: has_uihints_def note_defs eval_defs)
  have th: "fst (hasInvalidFields note_loaded) = Throw TypeError"
    by (simp add: hasInvalidFields_def js_or_def isValueEmpty_def note_defs eval_defs)
  have k': "map fst (schema ?e) = [''note'']"
    by (simp add: renderField_def js_or_def note_defs eval_defs)
  have rq': "requiredFields ?e \<noteq> None"
    by (simp add: renderField_def js_or_def note_defs eval_defs)
  have hu: "has_uihints ?e ''note''"
    using hasInvalidFields_needs_uihints [of note_loaded "''note''"] k by simp
  have "\<exists>b e'. hasInvalidFields ?e = (Return b, e') \<and> error_flag e' ''note'' \<noteq> None"
    using hasInvalidFields_needs_uihints [of ?e "''note''"] hu k' rq' by simp
  then show ?thesis using nu th hu by simp
qed

subsection \<open>Saving\<close>

lemmas endpoint_defs = endpoint_new_def endpoint_filled_def endpoint_existing_def
  endpoint_schema_def endpoint_record_def edit_props_def

lemma hasInvalidFields_keeps:
  assumes "hasInvalidFields e = (r, e')"
  shows "heap e' = heap e" "metadata e' = metadata e" "name e' = name e"
    "namespace e' = namespace e" "serviceCalls e' = serviceCalls e"
    "displayName e' = displayName e" "schemaName e' = schemaName e"
    "updateRequests e' = updateRequests e" "requiredFields e' = requiredFields e"
proof -
  note eq = hasInvalidFields_frame [OF assms]
  show "heap e' = heap e" using arg_cong [OF eq, of heap] by simp
  show "metadata e' = metadata e" using arg_cong [OF eq, of metadata] by simp
  show "name e' = name e" using arg_cong [OF eq, of name] by simp
  show "namespace e' = namespace e" using arg_cong [OF eq, of namespace] by simp
  show "serviceCalls e' = serviceCalls e" using arg_cong [OF eq, of serviceCalls] by simp
  show "displayName e' = displayName e" using arg_cong [OF eq, of displayName] by simp
  show "schemaName e' = schemaName e" using arg_cong [OF eq, of schemaName] by simp
  show "updateRequests e' = updateRequests e" using arg_cong [OF eq, of updateRequests] by simp
  show "requiredFields e' = requiredFields e" using arg_cong [OF eq, of requiredFields] by simp
qed

text \<open>
  C3. On save: when validation reports the form invalid, \<open>saveMetadata\<close> requests a
  re-render of the validated state (which carries the error flags) and calls neither
  \<open>postMetadata\<close> nor \<open>putMetadata\<close>; nor does it when validation throws. When validation
  passes and the editor has no name, the one call made is \<open>postMetadata\<close>; when it passes
  and the editor has the name \<open>n\<close>, the one call made is \<open>putMetadata\<close> with \<open>n\<close>.
\<close>

theorem saveMetadata_create_or_update:
  "(fst (hasInvalidFields e) = Return True \<longrightarrow>
      saveMetadata e = (Return (), update (snd (hasInvalidFields e))) \<and>
      serviceCalls (snd (saveMetadata e)) = serviceCalls e) \<and>
   (fst (hasInvalidFields e) = Throw x \<longrightarrow>
      fst (saveMetadata e) = Throw x \<and> serviceCalls (snd (saveMetadata e)) = serviceCalls e) \<and>
   (fst (hasInvalidFields e) = Return False \<and> \<not> has_name (name e) \<longrightarrow>
      fst (saveMetadata e) = Return () \<and>
      serviceCalls (snd (saveMetadata e)) =
        serviceCalls e @ [PostMetadata (namespace e) (newMetadata e)]) \<and>
   (fst (hasInvalidFields e) = Return False \<and> name e = Some n \<and> n \<noteq> [] \<longrightarrow>
      fst (saveMetadata e) = Return () \<and>
      serviceCalls (snd (saveMetadata e)) =
        serviceCalls e @ [PutMetadata (namespace e) n (newMetadata e)])"
proof -
  obtain r e1 where h: "hasInvalidFields e = (r, e1)" by (cases "hasInvalidFields e")
  note keep = hasInvalidFields_keeps [OF h]
  have a: "saveMetadata e = (Return (), update e1) \<and> serviceCalls (snd (saveMetadata e)) = serviceCalls e"
    if "r = Return True"
    using that h keep by (simp add: saveMetadata_def update_def)
  have b: "fst (saveMetadata e) = Throw x \<and> serviceCalls (snd (saveMetadata e)) = serviceCalls e"
    if "r = Throw x"
    using that h keep by (simp add: saveMetadata_def)
  have c: "fst (saveMetadata e) = Return () \<and>
      serviceCalls (snd (saveMetadata e)) =
        serviceCalls e @ [PostMetadata (namespace e) (newMetadata e)]"
    if "r = Return False" "\<not> has_name (name e)"
    using that h keep
    by (cases "name e") (simp_all add: saveMetadata_def newMetadata_def Let_def)
  have d: "fst (saveMetadata e) = Return () \<and>
      serviceCalls (snd (saveMetadata e)) =
        serviceCalls e @ [PutMetadata (namespace e) n (newMetadata e)]"
    if "r = Return False" "name e = Some n" "n \<noteq> []"
    using that h keep by (simp add: saveMetadata_def newMetadata_def Let_def)
  show ?thesis using a b c d h keep(5) by (simp add: update_def)
qed


theorem saveMetadata_create_or_update_witness:
  "fst (hasInvalidFields endpoint_new) = Return True \<and>
   error_flag (snd (saveMetadata endpoint_new)) ''api_endpoint'' = Some True \<and>
   updateRequests (snd (saveMetadata endpoint_new)) = Suc (updateRequests endpoint_new) \<and>
   serviceCalls (snd (saveMetadata endpoint_new)) = [] \<and>
   fst (hasInvalidFields endpoint_filled) = Return False \<and>
   serviceCalls (snd (saveMetadata endpoint_filled)) =
     [PostMetadata ''code-snippets'' (newMetadata endpoint_filled)] \<and>
   fst (hasInvalidFields endpoint_existing) = Return False \<and>
   serviceCalls (snd (saveMetadata endpoint_existing)) =
     [PutMetadata ''code-snippets'' ''r1'' (newMetadata endpoint_existing)] \<and>
   fst (hasInvalidFields note_loaded) = Throw TypeError \<and>
   serviceCalls (snd (saveMetadata note_loaded)) = []"
proof -
  have n1: "fst (hasInvalidFields endpoint_new) = Return True"
    by (simp add: hasInvalidFields_def js_or_def isValueEmpty_def endpoint_defs eval_defs)
  have n2: "error_flag (snd (hasInvalidFields endpoint_new)) ''api_endpoint'' = Some True"
    by (simp add: hasInvalidFields_def js_or_def isValueEmpty_def error_flag_def endpoint_defs
        eval_defs)
  have n3: "serviceCalls endpoint_new = []" "updateRequests endpoint_new = 1"
    by (simp_all add: endpoint_defs eval_defs)
  have f1: "fst (hasInvalidFields endpoint_filled) = Return False"
    by (simp add: hasInvalidFields_def js_or_def isValueEmpty_def endpoint_defs eval_defs)
  have f2: "name endpoint_filled = None" "serviceCalls endpoint_filled = []"
    "namespace endpoint_filled = ''code-snippets''"
    by (simp_all add: endpoint_defs eval_defs)
  have x1: "fst (hasInvalidFields endpoint_existing) = Return False"
    by (simp add: hasInvalidFields_def js_or_def isValueEmpty_def endpoint_defs eval_defs)
  have x2: "name endpoint_existing = Some ''r1''" "serviceCalls endpoint_existing = []"
    "namespace endpoint_existing = ''code-snippets''"
    by (simp_all add: endpoint_defs eval_defs)
  have t1: "fst (hasInvalidFields note_loaded) = Throw TypeError"
    by (simp add: hasInvalidFields_def js_or_def isValueEmpty_def note_defs eval_defs)
  have t2: "serviceCalls note_loaded = []"
    by (simp add: note_defs eval_defs)
  have n4: "updateRequests (snd (hasInvalidFields endpoint_new)) = 1"
    using hasInvalidFields_keeps(8) [of endpoint_new] n3 by (cases "hasInvalidFields endpoint_new") simp
  have s0: "saveMetadata endpoint_new = (Return (), update (snd (hasInvalidFields endpoint_new))) \<and>
      serviceCalls (snd (saveMetadata endpoint_new)) = serviceCalls endpoint_new"
    using saveMetadata_create_or_update [of endpoint_new TypeError "[]"] n1 by blast
  have s1: "serviceCalls (snd (saveMetadata endpoint_new)) = []"
    using s0 [THEN conjunct2] n3 by simp
  have s2: "error_flag (snd (saveMetadata endpoint_new)) ''api_endpoint'' = Some True"
    "updateRequests (snd (saveMetadata endpoint_new)) = Suc (updateRequests endpoint_new)"
    using n2 n3 n4 by (simp_all add: s0 [THEN conjunct1] update_def error_flag_def)
  have s3: "serviceCalls (snd (saveMetadata endpoint_filled)) =
      [PostMetadata ''code-snippets'' (newMetadata endpoint_filled)]"
    using saveMetadata_create_or_update [of endpoint_filled TypeError "[]"] f1 f2 by simp
  have s4: "serviceCalls (snd (saveMetadata endpoint_existing)) =
      [PutMetadata ''code-snippets'' ''r1'' (newMetadata endpoint_existing)]"
    using saveMetadata_create_or_update [of endpoint_existing TypeError "''r1''"] x1 x2 by simp
  have s5: "serviceCalls (snd (saveMetadata note_loaded)) = []"
    using saveMetadata_create_or_update [of note_loaded TypeError "[]"] t1 t2 by simp
  show ?thesis using n1 s1 s2 s3 s4 s5 f1 x1 t1 by simp
qed

subsection \<open>Edits of the record\<close>

lemmas choice_defs = choice_existing_def choice_new_def choice_named_def choice_unselected_def
  choice_schema_def choice_records_def edit_props_def


lemma handleDirtyState_keeps [simp]:
  "heap (handleDirtyState b e) = heap e"
  "metadata (handleDirtyState b e) = metadata e"
  "requiredFields (handleDirtyState b e) = requiredFields e"
  "displayName (handleDirtyState b e) = displayName e"
  "schema (handleDirtyState b e) = schema e"
  "editorServices (handleDirtyState b e) = editorServices e"
  "editor (handleDirtyState b e) = editor e"
  by (simp_all add: handleDirtyState_def Let_def setDirty_def split: option.splits)

lemma fields_handleDirtyState [simp]: "record_fields (handleDirtyState b e) = record_fields e"
  by (simp add: record_fields_def)

lemma fields_displayName [simp]: "record_fields (e\<lparr>displayName := v\<rparr>) = record_fields e"
  by (simp add: record_fields_def)

lemma fields_metadata_set [simp]: "record_fields (metadata_set f v e) = (record_fields e)(f \<mapsto> v)"
  by (simp add: record_fields_def metadata_set_def)

lemma fields_metadata_delete [simp]: "record_fields (metadata_delete f e) = (record_fields e)(f := None)"
  by (simp add: record_fields_def metadata_delete_def)

text \<open>
  A text-input change while \<open>requiredFields\<close> is loaded, on a field other than
  \<open>display_name\<close>: when the new value is falsy and the field is not among the required
  fields, the field's key is deleted from the record; when the value is truthy, or the
  field is required, the value is stored under the key. A change of \<open>display_name\<close>
  stores the raw value as the display name, whatever it is, and leaves the record's
  fields alone.
\<close>

lemma handleTextInputChange_deletes_or_stores:
  "(f \<noteq> ''display_name'' \<and> \<not> truthy v \<and> requiredFields e = Some rf \<and> f \<notin> set rf \<longrightarrow>
      handleTextInputChange v f e = (Return (), metadata_delete f (handleDirtyState True e)) \<and>
      record_fields (snd (handleTextInputChange v f e)) = (record_fields e)(f := None) \<and>
      f \<notin> dom (record_fields (snd (handleTextInputChange v f e)))) \<and>
   (f \<noteq> ''display_name'' \<and> (truthy v \<or> requiredFields e = Some rf \<and> f \<in> set rf) \<longrightarrow>
      handleTextInputChange v f e = (Return (), metadata_set f v (handleDirtyState True e)) \<and>
      record_fields (snd (handleTextInputChange v f e)) = (record_fields e)(f \<mapsto> v)) \<and>
   handleTextInputChange v ''display_name'' e =
     (Return (), (handleDirtyState True e)\<lparr>displayName := v\<rparr>) \<and>
   displayName (snd (handleTextInputChange v ''display_name'' e)) = v \<and>
   record_fields (snd (handleTextInputChange v ''display_name'' e)) = record_fields e"
  by (auto simp: handleTextInputChange_def Let_def)

lemma handleTextInputChange_deletes_or_stores_example:
  "record_fields (snd (handleTextInputChange (Str ''abc'') ''note'' note_loaded)) ''note'' = Some (Str ''abc'') \<and>
   record_fields (snd (handleTextInputChange (Str [])  ''note''
             (snd (handleTextInputChange (Str ''abc'') ''note'' note_loaded)))) ''note'' = None \<and>
   record_fields (snd (handleTextInputChange (Str []) ''kind'' kind_loaded)) ''kind'' = Some (Str []) \<and>
   displayName (snd (handleTextInputChange (Str []) ''display_name'' kind_loaded)) = Str []"
proof -
  let ?e = "snd (handleTextInputChange (Str ''abc'') ''note'' note_loaded)"
  have a: "record_fields ?e = (record_fields note_loaded)(''note'' \<mapsto> Str ''abc'')"
    using handleTextInputChange_deletes_or_stores [of "''note''" "Str ''abc''" note_loaded "[]"]
    by simp
  have r: "requiredFields ?e = Some []"
    by (simp add: note_defs eval_defs)
  have b: "record_fields (snd (handleTextInputChange (Str []) ''note'' ?e)) = (record_fields ?e)(''note'' := None)"
    using handleTextInputChange_deletes_or_stores [of "''note''" "Str []" ?e "[]"] r
    by simp
  have k: "requiredFields kind_loaded = Some [''kind'']"
    by (simp add: kind_defs eval_defs)
  have c: "record_fields (snd (handleTextInputChange (Str []) ''kind'' kind_loaded)) =
      (record_fields kind_loaded)(''kind'' \<mapsto> Str [])"
    using handleTextInputChange_deletes_or_stores [of "''kind''" "Str []" kind_loaded "[''kind'']"] k
    by simp
  have d: "displayName (snd (handleTextInputChange (Str []) ''display_name'' kind_loaded)) = Str []"
    using handleTextInputChange_deletes_or_stores [of "''x''" "Str []" kind_loaded "[]"]
    by blast
  show ?thesis using d by (simp add: a b c)
qed

lemma saveMetadata_call:
  assumes "fst (hasInvalidFields e) = Return False"
  shows "\<exists>c. serviceCalls (snd (saveMetadata e)) = serviceCalls e @ [c] \<and>
           call_payload c = newMetadata e"
proof -
  obtain e1 where h: "hasInvalidFields e = (Return False, e1)"
    using assms by (cases "hasInvalidFields e") simp
  note keep = hasInvalidFields_keeps [OF h]
  show ?thesis
  proof (cases "has_name (name e)")
    case True
    then obtain n where "name e = Some n" "n \<noteq> []" by (cases "name e") auto
    then have "serviceCalls (snd (saveMetadata e)) =
        serviceCalls e @ [PutMetadata (namespace e) n (newMetadata e)]"
      using h keep by (simp add: saveMetadata_def newMetadata_def Let_def)
    then show ?thesis by simp
  next
    case False
    then have "serviceCalls (snd (saveMetadata e)) =
        serviceCalls e @ [PostMetadata (namespace e) (newMetadata e)]"
      using h keep by (cases "name e") (simp_all add: saveMetadata_def newMetadata_def Let_def)
    then show ?thesis by simp
  qed
qed

lemma handleDropdownChange_state:
  "record_fields (snd (handleDropdownChange f v e)) = (record_fields e)(f \<mapsto> v)"
  "metadata (snd (handleDropdownChange f v e)) = metadata e"
  by (simp_all add: handleDropdownChange_def Let_def update_def record_fields_def metadata_set_def
      split: option.splits)

text \<open>
  C10. A dropdown change stores the selected value under the field's key, for every field
  and every value, also when the call then throws for the field \<open>language\<close>: the record
  afterwards is the record before with the key set, so no key is ever removed. A save
  that passes validation right after sends a payload that holds the value under the key.
\<close>

theorem handleDropdownChange_always_stores:
  "record_fields (snd (handleDropdownChange f v e)) = (record_fields e)(f \<mapsto> v) \<and>
   dom (record_fields (snd (handleDropdownChange f v e))) = insert f (dom (record_fields e)) \<and>
   metadata (snd (handleDropdownChange f v e)) = metadata e \<and>
   (fst (hasInvalidFields (snd (handleDropdownChange f v e))) = Return False \<longrightarrow>
      (\<exists>c. serviceCalls (snd (saveMetadata (snd (handleDropdownChange f v e)))) =
              serviceCalls (snd (handleDropdownChange f v e)) @ [c] \<and>
            payload_metadata (call_payload c) f = Some v))"
proof (intro conjI impI)
  let ?e = "snd (handleDropdownChange f v e)"
  show s: "record_fields ?e = (record_fields e)(f \<mapsto> v)"
    by (rule handleDropdownChange_state)
  show "dom (record_fields ?e) = insert f (dom (record_fields e))"
    by (simp add: s)
  show "metadata ?e = metadata e"
    by (rule handleDropdownChange_state)
  assume "fst (hasInvalidFields ?e) = Return False"
  from saveMetadata_call [OF this] obtain c where
    c: "serviceCalls (snd (saveMetadata ?e)) = serviceCalls ?e @ [c]" "call_payload c = newMetadata ?e"
    by blast
  have "payload_metadata (call_payload c) = record_fields ?e"
    by (simp add: c newMetadata_def record_fields_def)
  then have "payload_metadata (call_payload c) f = Some v" by (simp add: s)
  with c show "\<exists>c. serviceCalls (snd (saveMetadata ?e)) = serviceCalls ?e @ [c] \<and>
      payload_metadata (call_payload c) f = Some v"
    by blast
qed

theorem handleDropdownChange_always_stores_witness:
  "fst (hasInvalidFields choice_unselected) = Return False \<and>
   requiredFields choice_unselected = Some [] \<and>
   (\<exists>c. serviceCalls (snd (saveMetadata choice_unselected)) = [c] \<and>
        payload_metadata (call_payload c) ''kind'' = Some (Str ''(No selection)'')) \<and>
   record_fields (snd (handleDropdownChange ''kind'' (Str []) choice_named)) ''kind'' = Some (Str []) \<and>
   fst (handleDropdownChange ''language'' (Str []) choice_named) = Throw TypeError \<and>
   record_fields (snd (handleDropdownChange ''language'' (Str []) choice_named)) ''language'' =
     Some (Str [])"
proof -
  have v: "fst (hasInvalidFields choice_unselected) = Return False"
    by (simp add: hasInvalidFields_def js_or_def isValueEmpty_def handleDropdownChange_def
        choice_defs eval_defs)
  have r: "requiredFields choice_unselected = Some []" "serviceCalls choice_unselected = []"
    by (simp_all add: handleDropdownChange_def choice_defs eval_defs)
  have a: "\<exists>c. serviceCalls (snd (saveMetadata choice_unselected)) = [c] \<and>
        payload_metadata (call_payload c) ''kind'' = Some (Str ''(No selection)'')"
    using handleDropdownChange_always_stores [of "''kind''" "Str ''(No selection)''" choice_named]
      v r(2)
    by (simp add: choice_unselected_def)
  have b: "record_fields (snd (handleDropdownChange ''kind'' (Str []) choice_named)) ''kind'' =
      Some (Str [])"
    using handleDropdownChange_always_stores [of "''kind''" "Str []" choice_named] by simp
  have c: "record_fields (snd (handleDropdownChange ''language'' (Str []) choice_named))
      ''language'' = Some (Str [])"
    using handleDropdownChange_always_stores [of "''language''" "Str []" choice_named] by simp
  have d: "fst (handleDropdownChange ''language'' (Str []) choice_named) = Throw TypeError"
    by (simp add: handleDropdownChange_def choice_defs eval_defs)
  show ?thesis using v r a b c d by simp
qed

subsection \<open>Dropdown choices\<close>

text \<open>
  C5. The editor opened for the record \<open>r1\<close>, whose \<open>kind\<close> is \<open>z\<close>; the other records hold
  \<open>X\<close> and \<open>y\<close>, and the default choices are \<open>x\<close>. The elements of \<open>allMetadata\<close> are the
  objects 1, 3, 5 and \<open>this.metadata\<close> is the dictionary 2 of the first, so the test
  \<open>otherMetadata !== this.metadata\<close> holds for every element: the choices for \<open>kind\<close> are
  \<open>x\<close>, \<open>z\<close>, \<open>y\<close>, with the value \<open>z\<close> of the record under edit among them (\<open>X\<close> is dropped as
  equal to \<open>x\<close> up to case). For \<open>level\<close>, which has an \<open>enum\<close>, the choices are the \<open>enum\<close>.
\<close>

theorem getDefaultChoices_includes_edited_record:
  "name choice_existing = Some ''r1'' \<and>
   map obj_name (allMetadata choice_existing) = [''r1'', ''r2'', ''r3''] \<and>
   map obj_ref (allMetadata choice_existing) = [1, 3, 5] \<and>
   map obj_metadata (allMetadata choice_existing) = [2, 4, 6] \<and>
   metadata choice_existing = 2 \<and>
   metadata_get choice_existing ''kind'' = Str ''z'' \<and>
   getDefaultChoices ''kind'' choice_existing = Return [Str ''x'', Str ''z'', Str ''y''] \<and>
   getDefaultChoices ''level'' choice_existing = Return [Str ''low'', Str ''high'']"
  by (simp add: getDefaultChoices_def lower_char_def choice_defs eval_defs)

subsection \<open>A schema without a \<open>required\<close> list\<close>

lemmas optional_defs = optional_loaded_def optional_schema_def

text \<open>
  C6. After loading a schema whose \<open>metadata\<close> sub-schema has no \<open>required\<close> list,
  \<open>requiredFields\<close> is \<open>undefined\<close>, not the empty list. \<open>renderField\<close> guards against that
  and renders the field as not known to be required; validation (and with it saving) and
  a text-input change to a falsy value read \<open>includes\<close> of it and throw a TypeError.
\<close>

theorem requiredFields_absent_faults:
  "requiredFields optional_loaded = None \<and>
   map fst (schema optional_loaded) = [''note''] \<and>
   fst (hasInvalidFields optional_loaded) = Throw TypeError \<and>
   fst (saveMetadata optional_loaded) = Throw TypeError \<and>
   fst (handleTextInputChange (Str []) ''note'' optional_loaded) = Throw TypeError \<and>
   fst (renderField ''note'' optional_loaded) = Return (TextInput ''note'' (Str []) Undefined None)"
  by (simp add: hasInvalidFields_def saveMetadata_def renderField_def js_or_def optional_defs
      eval_defs)

text \<open>
  C4. A text-input change to a falsy value deletes the key of a field that is not
  required and stores the value otherwise, leaving no third outcome. The source misses
  this when the schema has no \<open>required\<close> list: with \<open>abc\<close> stored under \<open>note\<close>, emptying
  the field reads \<open>includes\<close> of the undefined \<open>requiredFields\<close> and throws a TypeError, the
  key is neither deleted nor set to the empty string, and the record still holds \<open>abc\<close>.
\<close>

theorem handleTextInputChange_absent_required_keeps_value:
  "requiredFields optional_typed = None \<and>
   fst (handleTextInputChange (Str ''abc'') ''note'' optional_loaded) = Return () \<and>
   record_fields optional_typed ''note'' = Some (Str ''abc'') \<and>
   fst (handleTextInputChange (Str []) ''note'' optional_typed) = Throw TypeError \<and>
   record_fields (snd (handleTextInputChange (Str []) ''note'' optional_typed)) ''note'' =
     Some (Str ''abc'')"
  by (simp add: record_fields_def optional_typed_def optional_defs eval_defs)

subsection \<open>Tags at initialisation\<close>

lemmas tagged_defs = tagged_new_def tagged_existing_def tagged_records_def note_schema_def
  edit_props_def


lemma set_addTags: "set (addTags ts tags) = set tags \<union> set ts"
  by (induction ts arbitrary: tags) (auto simp: js_includes_def)

lemma distinct_addTags:
  "distinct (filter is_primitive tags) \<Longrightarrow> distinct (filter is_primitive (addTags ts tags))"
  by (induction ts arbitrary: tags) (auto simp: js_includes_def)

lemma allocate_spec:
  "allocate js e = (ms, e1) \<Longrightarrow>
     map obj_name ms = map mj_name js \<and>
     (\<forall>r\<le>next_ref e. heap e1 r = heap e r) \<and>
     map (\<lambda>m. heap e1 (obj_metadata m)) ms = map (\<lambda>j. map_of (mj_metadata j)) js \<and>
     allTags e1 = allTags e \<and> name e1 = name e"
proof (induction js arbitrary: e ms e1)
  case Nil
  then show ?case by simp
next
  case (Cons j js)
  define e0 where "e0 =
    e\<lparr>heap := (heap e)(Suc (next_ref e) := map_of (mj_metadata j)),
      next_ref := Suc (Suc (next_ref e))\<rparr>"
  obtain ms' e2 where a: "allocate js e0 = (ms', e2)" by (cases "allocate js e0")
  have ms: "ms = \<lparr>obj_ref = next_ref e, obj_name = mj_name j,
                  obj_display_name = mj_display_name j, obj_metadata = Suc (next_ref e)\<rparr> # ms'"
    and e1: "e1 = e2"
    using Cons.prems a by (simp_all add: Let_def e0_def)
  from Cons.IH [OF a] have
    n: "map obj_name ms' = map mj_name js" and
    h: "\<forall>r\<le>next_ref e0. heap e2 r = heap e0 r" and
    d: "map (\<lambda>m. heap e2 (obj_metadata m)) ms' = map (\<lambda>j. map_of (mj_metadata j)) js" and
    t: "allTags e2 = allTags e0" "name e2 = name e0"
    by simp_all
  have nr: "next_ref e0 = Suc (Suc (next_ref e))" by (simp add: e0_def)
  have "heap e2 (Suc (next_ref e)) = map_of (mj_metadata j)"
    using h nr by (simp add: e0_def)
  moreover have "\<forall>r\<le>next_ref e. heap e2 r = heap e r"
    using h nr by (simp add: e0_def)
  moreover have "allTags e2 = allTags e" "name e2 = name e"
    using t by (simp_all add: e0_def)
  ultimately show ?case using n d by (simp add: ms e1)
qed


lemma tags_at_simps [simp]:
  "tags_at (e\<lparr>allTags := ts\<rparr>) r = tags_at e r"
  "tags_at (e\<lparr>metadata := m\<rparr>) r = tags_at e r"
  "tags_at (e\<lparr>displayName := v\<rparr>) r = tags_at e r"
  "tags_at (e\<lparr>allMetadata := ms\<rparr>) r = tags_at e r"
  "tags_at (e\<lparr>editor := ed\<rparr>) r = tags_at e r"
  "tags_at (e\<lparr>updateRequests := n\<rparr>) r = tags_at e r"
  by (simp_all add: tags_at_def)

lemma tags_at_reset [simp]:
  "tags_at (e\<lparr>heap := (heap e)(r := (heap e r)(''tags'' \<mapsto> v))\<rparr>) r' =
     (if r' = r then v else tags_at e r')"
  by (simp add: tags_at_def dict_get_def)

lemma tag_list_falsy [simp]: "\<not> truthy t \<Longrightarrow> tag_list t = []"
  by (simp add: tag_list_def)

lemma tag_list_empty [simp]: "tag_list (Arr []) = []"
  by (simp add: tag_list_def)

lemma iterable_empty [simp]: "iterable_tags (Arr [])"
  by (simp add: iterable_tags_def)

lemma scanMetadata_Cons:
  assumes "iterable_tags (tags_at e (obj_metadata m))"
  shows "scanMetadata (m # ms) e = scanMetadata ms (scan_step m e)"
proof (cases "truthy (tags_at e (obj_metadata m))")
  case True
  with assms obtain ts where "js_iterate (tags_at e (obj_metadata m)) = Return ts"
    by (cases "js_iterate (tags_at e (obj_metadata m))") (auto simp: iterable_tags_def)
  with True show ?thesis
    by (simp add: scan_step_def tags_at_def tag_list_def Let_def)
next
  case False
  then show ?thesis
    by (simp add: scan_step_def tags_at_def Let_def)
qed

lemma scan_step_facts:
  "allTags (scan_step m e) = addTags (tag_list (tags_at e (obj_metadata m))) (allTags e)"
  "tags_at (scan_step m e) r =
     (if r = obj_metadata m \<and> \<not> truthy (tags_at e r) then Arr [] else tags_at e r)"
  "allMetadata (scan_step m e) = allMetadata e"
  "name (scan_step m e) = name e"
  by (auto simp: scan_step_def Let_def)


lemma scanMetadata_spec:
  assumes "\<forall>m\<in>set ms. iterable_tags (tags_at e (obj_metadata m))"
  shows "\<exists>e'. scanMetadata ms e = (Return (), e') \<and>
           set (allTags e') =
             set (allTags e) \<union> (\<Union>m\<in>set ms. set (tag_list (tags_at e (obj_metadata m)))) \<and>
           (distinct (filter is_primitive (allTags e)) \<longrightarrow>
              distinct (filter is_primitive (allTags e'))) \<and>
           (\<forall>r. tags_at e' r =
                  (if r \<in> obj_metadata ` set ms \<and> \<not> truthy (tags_at e r) then Arr []
                   else tags_at e r)) \<and>
           allMetadata e' = allMetadata e \<and> name e' = name e"
  using assms
proof (induction ms arbitrary: e)
  case Nil
  then show ?case by simp
next
  case (Cons m ms)
  let ?e1 = "scan_step m e"
  have it: "iterable_tags (tags_at e (obj_metadata m))" using Cons.prems by simp
  have step: "scanMetadata (m # ms) e = scanMetadata ms ?e1"
    by (rule scanMetadata_Cons [OF it])
  have t1: "tags_at ?e1 r =
      (if r = obj_metadata m \<and> \<not> truthy (tags_at e r) then Arr [] else tags_at e r)" for r
    by (rule scan_step_facts)
  have l1: "tag_list (tags_at ?e1 r) = tag_list (tags_at e r)" for r
    by (auto simp: t1)
  have "\<forall>m'\<in>set ms. iterable_tags (tags_at ?e1 (obj_metadata m'))"
    using Cons.prems by (simp add: t1)
  from Cons.IH [OF this] obtain e' where
    run: "scanMetadata ms ?e1 = (Return (), e')" and
    st: "set (allTags e') =
           set (allTags ?e1) \<union> (\<Union>m\<in>set ms. set (tag_list (tags_at ?e1 (obj_metadata m))))" and
    di: "distinct (filter is_primitive (allTags ?e1)) \<longrightarrow>
           distinct (filter is_primitive (allTags e'))" and
    ta: "\<forall>r. tags_at e' r =
           (if r \<in> obj_metadata ` set ms \<and> \<not> truthy (tags_at ?e1 r) then Arr []
            else tags_at ?e1 r)" and
    fr: "allMetadata e' = allMetadata ?e1" "name e' = name ?e1"
    by blast
  have "scanMetadata (m # ms) e = (Return (), e')" using step run by simp
  moreover have "set (allTags e') =
      set (allTags e) \<union> (\<Union>m\<in>set (m # ms). set (tag_list (tags_at e (obj_metadata m))))"
    using st by (auto simp: l1 scan_step_facts(1) set_addTags)
  moreover have "distinct (filter is_primitive (allTags e)) \<longrightarrow>
      distinct (filter is_primitive (allTags e'))"
    using di by (simp add: scan_step_facts(1) distinct_addTags)
  moreover have "\<forall>r. tags_at e' r =
      (if r \<in> obj_metadata ` set (m # ms) \<and> \<not> truthy (tags_at e r) then Arr []
       else tags_at e r)"
    using ta by (auto simp: t1)
  moreover have "allMetadata e' = allMetadata e" "name e' = name e"
    using fr by (simp_all add: scan_step_facts)
  ultimately show ?case by blast
qed


lemma tags_at_metadata_set_code [simp]: "tags_at (metadata_set ''code'' v e) r = tags_at e r"
  by (simp add: tags_at_def metadata_set_def dict_get_def)

lemma onInitializedMetadata_keeps:
  "tags_at (snd (onInitializedMetadata e)) r = tags_at e r"
  "allTags (snd (onInitializedMetadata e)) = allTags e"
  "allMetadata (snd (onInitializedMetadata e)) = allMetadata e"
  by (simp_all add: onInitializedMetadata_def metadata_set_def [where k = "''code''"] tags_at_def
      dict_get_def split: option.splits)

lemma loadSchema_keeps:
  "name (loadSchema a e) = name e" "allTags (loadSchema a e) = allTags e"
  by (simp_all add: loadSchema_def split: option.splits)

lemma loadMetadata_spec:
  "map obj_name (allMetadata (loadMetadata (Some js) e)) = map mj_name js"
  "map (\<lambda>m. tags_at (loadMetadata (Some js) e) (obj_metadata m))
       (allMetadata (loadMetadata (Some js) e)) = map json_tags js"
  "allTags (loadMetadata (Some js) e) = allTags e"
  "name (loadMetadata (Some js) e) = name e"
proof -
  obtain ms e1 where a: "allocate js e = (ms, e1)" by (cases "allocate js e")
  have l: "loadMetadata (Some js) e = e1\<lparr>allMetadata := ms\<rparr>"
    by (simp add: loadMetadata_def a)
  note sp = allocate_spec [OF a]
  show "map obj_name (allMetadata (loadMetadata (Some js) e)) = map mj_name js"
    using sp by (simp add: l)
  have "map (\<lambda>m. dict_get (heap e1 (obj_metadata m)) ''tags'') ms =
        map (\<lambda>d. dict_get d ''tags'') (map (\<lambda>m. heap e1 (obj_metadata m)) ms)"
    by (simp add: comp_def)
  also have "\<dots> = map (\<lambda>d. dict_get d ''tags'') (map (\<lambda>j. map_of (mj_metadata j)) js)"
    using sp by simp
  also have "\<dots> = map json_tags js"
    by (simp add: comp_def json_tags_def)
  finally show "map (\<lambda>m. tags_at (loadMetadata (Some js) e) (obj_metadata m))
       (allMetadata (loadMetadata (Some js) e)) = map json_tags js"
    by (simp add: l tags_at_def)
  show "allTags (loadMetadata (Some js) e) = allTags e" using sp by (simp add: l)
  show "name (loadMetadata (Some js) e) = name e" using sp by (simp add: l)
qed

lemma initializeMetadata_after:
  assumes "(if has_name (name e2) then scanMetadata (allMetadata e2) e2
            else (Return (), e2\<lparr>displayName := Str []\<rparr>)) = (Return (), e3)"
    and "e2 = loadMetadata records (loadSchema schemas e)"
  shows "tags_at (snd (initializeMetadata schemas records e)) r = tags_at e3 r"
    "allTags (snd (initializeMetadata schemas records e)) = allTags e3"
    "allMetadata (snd (initializeMetadata schemas records e)) = allMetadata e3"
proof -
  obtain r4 e4 where o: "onInitializedMetadata e3 = (r4, e4)"
    by (cases "onInitializedMetadata e3")
  have k: "tags_at e4 r = tags_at e3 r" "allTags e4 = allTags e3" "allMetadata e4 = allMetadata e3"
    using onInitializedMetadata_keeps [of e3] by (simp_all add: o)
  have "snd (initializeMetadata schemas records e) = e4 \<or>
        snd (initializeMetadata schemas records e) = update e4"
    unfolding initializeMetadata_def Let_def assms(2) [symmetric] assms(1)
    by (cases r4) (simp_all add: o)
  then show "tags_at (snd (initializeMetadata schemas records e)) r = tags_at e3 r"
    "allTags (snd (initializeMetadata schemas records e)) = allTags e3"
    "allMetadata (snd (initializeMetadata schemas records e)) = allMetadata e3"
    using k by (auto simp: update_def)
qed


text \<open>
  C7, as the source has it. When the editor is opened for an existing record (its name is
  not empty) and every fetched record's \<open>tags\<close> is falsy or iterable, initialisation keeps
  the records in order, leaves each record with its truthy \<open>tags\<close> or else with the empty
  list, and the tag pool afterwards holds the tags it held before and every tag of every
  record, a primitive tag (a string) once. When the editor is opened for a new record,
  the records' \<open>tags\<close> stay as fetched and the tag pool is unchanged.
\<close>

theorem initializeMetadata_collects_tags:
  "(has_name (name e) \<and> (\<forall>j\<in>set js. iterable_tags (json_tags j)) \<longrightarrow>
      map obj_name (allMetadata (snd (initializeMetadata schemas (Some js) e))) = map mj_name js \<and>
      map (\<lambda>m. tags_at (snd (initializeMetadata schemas (Some js) e)) (obj_metadata m))
          (allMetadata (snd (initializeMetadata schemas (Some js) e))) =
        map (\<lambda>j. if truthy (json_tags j) then json_tags j else Arr []) js \<and>
      set (allTags (snd (initializeMetadata schemas (Some js) e))) =
        set (allTags e) \<union> (\<Union>j\<in>set js. set (tag_list (json_tags j))) \<and>
      (distinct (filter is_primitive (allTags e)) \<longrightarrow>
         distinct (filter is_primitive (allTags (snd (initializeMetadata schemas (Some js) e)))))) \<and>
   (\<not> has_name (name e) \<longrightarrow>
      map obj_name (allMetadata (snd (initializeMetadata schemas (Some js) e))) = map mj_name js \<and>
      map (\<lambda>m. tags_at (snd (initializeMetadata schemas (Some js) e)) (obj_metadata m))
          (allMetadata (snd (initializeMetadata schemas (Some js) e))) =
        map json_tags js \<and>
      allTags (snd (initializeMetadata schemas (Some js) e)) = allTags e)"
proof (intro conjI impI)
  define e2 where "e2 = loadMetadata (Some js) (loadSchema schemas e)"
  let ?e' = "snd (initializeMetadata schemas (Some js) e)"
  have n2: "name e2 = name e" and a2: "allTags e2 = allTags e"
    by (simp_all add: e2_def loadMetadata_spec loadSchema_keeps)
  have o2: "map obj_name (allMetadata e2) = map mj_name js"
    and t2: "map (\<lambda>m. tags_at e2 (obj_metadata m)) (allMetadata e2) = map json_tags js"
    by (simp_all add: e2_def loadMetadata_spec)
  {
    assume "\<not> has_name (name e)"
    then have s: "(if has_name (name e2) then scanMetadata (allMetadata e2) e2
            else (Return (), e2\<lparr>displayName := Str []\<rparr>)) = (Return (), e2\<lparr>displayName := Str []\<rparr>)"
      by (simp add: n2)
    note after = initializeMetadata_after [OF s e2_def]
    show "map obj_name (allMetadata ?e') = map mj_name js"
      using o2 by (simp add: after)
    show "map (\<lambda>m. tags_at ?e' (obj_metadata m)) (allMetadata ?e') = map json_tags js"
      using t2 by (simp add: after)
    show "allTags ?e' = allTags e"
      using a2 by (simp add: after)
  }
  assume "has_name (name e) \<and> (\<forall>j\<in>set js. iterable_tags (json_tags j))"
  then have hn: "has_name (name e2)" and it: "\<forall>j\<in>set js. iterable_tags (json_tags j)"
    by (simp_all add: n2)
  have img: "(\<lambda>m. tags_at e2 (obj_metadata m)) ` set (allMetadata e2) = json_tags ` set js"
    using arg_cong [OF t2, of set] by simp
  have "\<forall>t\<in>(\<lambda>m. tags_at e2 (obj_metadata m)) ` set (allMetadata e2). iterable_tags t"
    unfolding img using it by simp
  then have "\<forall>m\<in>set (allMetadata e2). iterable_tags (tags_at e2 (obj_metadata m))"
    by simp
  from scanMetadata_spec [OF this] obtain e3 where
    run: "scanMetadata (allMetadata e2) e2 = (Return (), e3)" and
    st: "set (allTags e3) =
           set (allTags e2) \<union>
           (\<Union>m\<in>set (allMetadata e2). set (tag_list (tags_at e2 (obj_metadata m))))" and
    di: "distinct (filter is_primitive (allTags e2)) \<longrightarrow> distinct (filter is_primitive (allTags e3))" and
    ta: "\<forall>r. tags_at e3 r =
           (if r \<in> obj_metadata ` set (allMetadata e2) \<and> \<not> truthy (tags_at e2 r) then Arr []
            else tags_at e2 r)" and
    am: "allMetadata e3 = allMetadata e2"
    by blast
  have s: "(if has_name (name e2) then scanMetadata (allMetadata e2) e2
            else (Return (), e2\<lparr>displayName := Str []\<rparr>)) = (Return (), e3)"
    using hn run by simp
  note after = initializeMetadata_after [OF s e2_def]
  show "map obj_name (allMetadata ?e') = map mj_name js"
    using o2 by (simp add: after am)
  have "map (\<lambda>m. tags_at e3 (obj_metadata m)) (allMetadata e2) =
        map (\<lambda>t. if truthy t then t else Arr []) (map (\<lambda>m. tags_at e2 (obj_metadata m)) (allMetadata e2))"
    using ta by (simp add: comp_def)
  also have "\<dots> = map (\<lambda>j. if truthy (json_tags j) then json_tags j else Arr []) js"
    by (simp add: t2 comp_def)
  finally show "map (\<lambda>m. tags_at ?e' (obj_metadata m)) (allMetadata ?e') =
      map (\<lambda>j. if truthy (json_tags j) then json_tags j else Arr []) js"
    by (simp add: after am)
  have "(\<Union>m\<in>set (allMetadata e2). set (tag_list (tags_at e2 (obj_metadata m)))) =
        (\<Union>t\<in>(\<lambda>m. tags_at e2 (obj_metadata m)) ` set (allMetadata e2). set (tag_list t))"
    by simp
  also have "\<dots> = (\<Union>j\<in>set js. set (tag_list (json_tags j)))"
    unfolding img by simp
  finally show "set (allTags ?e') = set (allTags e) \<union> (\<Union>j\<in>set js. set (tag_list (json_tags j)))"
    using st by (simp add: after a2)
  show "distinct (filter is_primitive (allTags ?e'))" if "distinct (filter is_primitive (allTags e))"
    using that di by (simp add: after a2)
qed


theorem initializeMetadata_collects_tags_witness:
  "has_name (name (newMetadataEditor edit_props)) \<and>
   list_all (\<lambda>j. iterable_tags (json_tags j)) tagged_records \<and>
   map obj_name (allMetadata tagged_existing) = [''r1'', ''r2'', ''r3''] \<and>
   map (\<lambda>m. tags_at tagged_existing (obj_metadata m)) (allMetadata tagged_existing) =
     [Arr [Str ''a'', Str ''b''], Arr [], Arr [Str ''b'', Str ''c'']] \<and>
   set (allTags tagged_existing) = {Str ''a'', Str ''b'', Str ''c''} \<and>
   distinct (filter is_primitive (allTags tagged_existing)) \<and>
   \<not> has_name (name (newMetadataEditor new_props)) \<and>
   allTags tagged_new = []"
proof -
  have h: "has_name (name (newMetadataEditor edit_props))"
    by (simp add: edit_props_def new_props_def newMetadataEditor_def)
  have i0: "list_all (\<lambda>j. iterable_tags (json_tags j)) tagged_records"
    by (simp add: tagged_records_def iterable_tags_def json_tags_def dict_get_def)
  then have i: "\<forall>j\<in>set tagged_records. iterable_tags (json_tags j)"
    by (simp add: list_all_iff)
  have n: "\<not> has_name (name (newMetadataEditor new_props))"
    by (simp add: new_props_def newMetadataEditor_def)
  have a0: "allTags (newMetadataEditor edit_props) = []" "allTags (newMetadataEditor new_props) = []"
    by (simp_all add: edit_props_def new_props_def newMetadataEditor_def)
  have j: "map json_tags tagged_records = [Arr [Str ''a'', Str ''b''], Undefined, Arr [Str ''b'', Str ''c'']]"
    by (simp add: tagged_records_def json_tags_def dict_get_def)
  have t1: "map (\<lambda>j. tag_list (json_tags j)) tagged_records =
      [Str ''a'', Str ''b''] # [] # [Str ''b'', Str ''c''] # []"
    by (simp add: tagged_records_def json_tags_def dict_get_def tag_list_def)
  have "(\<Union>j\<in>set tagged_records. set (tag_list (json_tags j))) =
        \<Union> (set (map set (map (\<lambda>j. tag_list (json_tags j)) tagged_records)))"
    by (simp add: image_image)
  also have "\<dots> = {Str ''a'', Str ''b'', Str ''c''}"
    unfolding t1 by auto
  finally have t: "(\<Union>j\<in>set tagged_records. set (tag_list (json_tags j))) =
      {Str ''a'', Str ''b'', Str ''c''}" .
  have m: "map (\<lambda>j. if truthy (json_tags j) then json_tags j else Arr []) tagged_records =
      [Arr [Str ''a'', Str ''b''], Arr [], Arr [Str ''b'', Str ''c'']]"
    by (simp add: tagged_records_def json_tags_def dict_get_def)
  have nm: "map mj_name tagged_records = [''r1'', ''r2'', ''r3'']"
    by (simp add: tagged_records_def)
  note th = initializeMetadata_collects_tags
      [of "newMetadataEditor edit_props" tagged_records "Some [note_schema]",
        THEN conjunct1, THEN mp, OF conjI [OF h i],
        unfolded tagged_existing_def [symmetric] m t nm a0]
  have e1: "map obj_name (allMetadata tagged_existing) = [''r1'', ''r2'', ''r3'']"
    by (rule th [THEN conjunct1])
  have e2: "map (\<lambda>m. tags_at tagged_existing (obj_metadata m)) (allMetadata tagged_existing) =
        [Arr [Str ''a'', Str ''b''], Arr [], Arr [Str ''b'', Str ''c'']]"
    by (rule th [THEN conjunct2, THEN conjunct1])
  have e3: "set (allTags tagged_existing) = {Str ''a'', Str ''b'', Str ''c''}"
    using th [THEN conjunct2, THEN conjunct2, THEN conjunct1] by simp
  have e4: "distinct (filter is_primitive (allTags tagged_existing))"
    using th [THEN conjunct2, THEN conjunct2, THEN conjunct2] by simp
  have nw: "allTags tagged_new = []"
    using initializeMetadata_collects_tags
      [of "newMetadataEditor new_props" tagged_records "Some [note_schema]"] n
    unfolding tagged_new_def [symmetric] a0
    by simp
  show ?thesis
    by (intro conjI) (rule h i0 e1 e2 e3 e4 n nw)+
qed

text \<open>
  C7, as stated for an editor opened for a new record, fails: the record \<open>r2\<close> has no
  \<open>tags\<close> and still has none after initialisation, and the tag pool is empty although
  \<open>r1\<close> carries the tags \<open>a\<close>, \<open>b\<close>.
\<close>

theorem initializeMetadata_new_record_counterexample:
  "name (newMetadataEditor new_props) = None \<and>
   map mj_name tagged_records = [''r1'', ''r2'', ''r3''] \<and>
   json_tags (tagged_records ! 0) = Arr [Str ''a'', Str ''b''] \<and>
   json_tags (tagged_records ! 1) = Undefined \<and>
   map obj_name (allMetadata tagged_new) = [''r1'', ''r2'', ''r3''] \<and>
   map obj_metadata (allMetadata tagged_new) = [2, 4, 6] \<and>
   tags_at tagged_new 2 = Arr [Str ''a'', Str ''b''] \<and>
   tags_at tagged_new 4 = Undefined \<and>
   allTags tagged_new = []"
  by (simp add: json_tags_def tags_at_def tagged_defs eval_defs)

end
